theory Spec2Isabelle
  imports Main
begin

section \<open>The user dictionary manager\<close>

text \<open>
  A shallow embedding of \<^verbatim>\<open>voicevox_engine/user_dict/user_dict_manager.py\<close>.
  Exceptions are values of \<open>error\<close>; an operation that can change files returns its
  result together with the new state of the files.
\<close>

subsection \<open>Exceptions\<close>

datatype error =
    ValueError_badly_formed_uuid     \<comment> \<open>raised by \<^verbatim>\<open>UUID(word_uuid)\<close>\<close>
  | ValueError_unsupported_pos       \<comment> \<open>line 281\<close>
  | AssertionError                   \<comment> \<open>lines 262 to 278\<close>
  | UserDictInputError               \<comment> \<open>lines 316 and 328, and \<^verbatim>\<open>create_word\<close>\<close>
  | RuntimeError_compile             \<comment> \<open>line 213\<close>
  | RuntimeError_CreateFileW         \<comment> \<open>line 107\<close>
  | RuntimeError_CloseHandle         \<comment> \<open>line 113\<close>
  | JSONDecodeError                  \<comment> \<open>\<^verbatim>\<open>json.load\<close> or \<^verbatim>\<open>validate_python\<close> in line 238\<close>
  | MecabDictIndexError              \<comment> \<open>raised inside \<^verbatim>\<open>pyopenjtalk.mecab_dict_index\<close>\<close>
  | UpdateGlobalJtalkError           \<comment> \<open>raised inside \<^verbatim>\<open>update_global_jtalk_with_user_dict\<close>\<close>

subsection \<open>UUID strings\<close>

text \<open>
  \<^verbatim>\<open>UUID(s)\<close> and \<^verbatim>\<open>str(u)\<close> of Python's \<^verbatim>\<open>uuid\<close> module, which the manager
  calls on every key it reads: the constructor deletes \<^verbatim>\<open>urn:\<close> and \<^verbatim>\<open>uuid:\<close>,
  strips braces from both ends, deletes hyphens, wants 32 characters and reads them as
  a hexadecimal number; \<^verbatim>\<open>str\<close> prints 32 lowercase hexadecimal digits in groups of
  8, 4, 4, 4 and 12. The further notations of \<^verbatim>\<open>int(hex, 16)\<close> (a sign, \<^verbatim>\<open>0x\<close>,
  underscores, blanks) are not modelled: such keys are rejected here.
\<close>

fun remove_sub :: "string \<Rightarrow> string \<Rightarrow> string" where
  "remove_sub p [] = []"
| "remove_sub p (c # cs) =
     (if p \<noteq> [] \<and> take (length p) (c # cs) = p
      then remove_sub p (drop (length p) (c # cs))
      else c # remove_sub p cs)"

definition is_brace :: "char \<Rightarrow> bool" where
  "is_brace c = (c = CHR ''{'' \<or> c = CHR ''}'')"

definition strip_braces :: "string \<Rightarrow> string" where
  "strip_braces s = rev (dropWhile is_brace (rev (dropWhile is_brace s)))"

definition hex_val :: "char \<Rightarrow> nat option" where
  "hex_val c =
     map_of
       [(CHR ''0'', 0), (CHR ''1'', 1), (CHR ''2'', 2), (CHR ''3'', 3), (CHR ''4'', 4),
        (CHR ''5'', 5), (CHR ''6'', 6), (CHR ''7'', 7), (CHR ''8'', 8), (CHR ''9'', 9),
        (CHR ''a'', 10), (CHR ''b'', 11), (CHR ''c'', 12), (CHR ''d'', 13), (CHR ''e'', 14),
        (CHR ''f'', 15), (CHR ''A'', 10), (CHR ''B'', 11), (CHR ''C'', 12), (CHR ''D'', 13),
        (CHR ''E'', 14), (CHR ''F'', 15)] c"

fun parse_hex :: "nat \<Rightarrow> string \<Rightarrow> nat option" where
  "parse_hex acc [] = Some acc"
| "parse_hex acc (c # cs) =
     (case hex_val c of None \<Rightarrow> None | Some d \<Rightarrow> parse_hex (16 * acc + d) cs)"

definition UUID :: "string \<Rightarrow> error + nat" where
  "UUID s =
     (let hex = remove_sub ''uuid:'' (remove_sub ''urn:'' s);
          hex = filter (\<lambda>c. c \<noteq> CHR ''-'') (strip_braces hex)
      in if length hex \<noteq> 32 then Inl ValueError_badly_formed_uuid
         else (case parse_hex 0 hex of
                 None \<Rightarrow> Inl ValueError_badly_formed_uuid
               | Some n \<Rightarrow> Inr n))"

definition hex_chr :: "nat \<Rightarrow> char" where
  "hex_chr d = ''0123456789abcdef'' ! (d mod 16)"

fun hex_pad :: "nat \<Rightarrow> nat \<Rightarrow> string" where
  "hex_pad 0 n = []"
| "hex_pad (Suc k) n = hex_pad k (n div 16) @ [hex_chr (n mod 16)]"

definition uuid_str :: "nat \<Rightarrow> string" where
  "uuid_str n =
     (let h = hex_pad 32 n
      in take 8 h @ ''-'' @ take 4 (drop 8 h) @ ''-'' @ take 4 (drop 12 h) @ ''-''
         @ take 4 (drop 16 h) @ ''-'' @ drop 20 h)"

definition lower_hex :: "string \<Rightarrow> bool" where
  "lower_hex s = list_all (\<lambda>c. c \<in> set ''0123456789abcdef'') s"

definition canonical_uuid :: "string \<Rightarrow> bool" where
  "canonical_uuid s =
     (length s = 36 \<and> lower_hex (take 8 s) \<and> s ! 8 = CHR ''-''
      \<and> lower_hex (take 4 (drop 9 s)) \<and> s ! 13 = CHR ''-''
      \<and> lower_hex (take 4 (drop 14 s)) \<and> s ! 18 = CHR ''-''
      \<and> lower_hex (take 4 (drop 19 s)) \<and> s ! 23 = CHR ''-''
      \<and> lower_hex (drop 24 s))"

subsection \<open>Python dictionaries\<close>

text \<open>
  A \<^verbatim>\<open>dict\<close> keeps its keys in insertion order, and the loops of the manager run in
  that order: an association list. Storing under a key that is present replaces the
  value in place, under a new key appends.
\<close>

type_synonym 'v pydict = "(string \<times> 'v) list"

fun dict_set :: "string \<Rightarrow> 'v \<Rightarrow> 'v pydict \<Rightarrow> 'v pydict" where
  "dict_set k v [] = [(k, v)]"
| "dict_set k v ((k', v') # d) =
     (if k' = k then (k, v) # d else (k', v') # dict_set k v d)"

definition dict_contains :: "string \<Rightarrow> 'v pydict \<Rightarrow> bool" where
  "dict_contains k d = (k \<in> set (map fst d))"

definition dict_del :: "string \<Rightarrow> 'v pydict \<Rightarrow> 'v pydict" where
  "dict_del k d = filter (\<lambda>kv. fst kv \<noteq> k) d"

text \<open>\<^verbatim>\<open>{**a, **b}\<close>\<close>

definition dict_update :: "'v pydict \<Rightarrow> 'v pydict \<Rightarrow> 'v pydict" where
  "dict_update a b = foldl (\<lambda>d kv. dict_set (fst kv) (snd kv) d) a b"

subsection \<open>Words\<close>

record UserDictWord =
  surface :: string
  priority :: int
  context_id :: int
  part_of_speech :: string
  part_of_speech_detail_1 :: string
  part_of_speech_detail_2 :: string
  part_of_speech_detail_3 :: string
  inflectional_type :: string
  inflectional_form :: string
  stem :: string
  yomi :: string
  pronunciation :: string
  accent_type :: int
  mora_count :: int
  accent_associative_rule :: string

text \<open>
  Modelled from the spec: \<^verbatim>\<open>SaveFormatUserDictWord\<close> of \<^verbatim>\<open>user_dict_word.py\<close>, which
  is not among the sources. The stored form of a word has the fields of the word, with
  a cost stored instead of the priority.
\<close>

record SaveFormatUserDictWord =
  sf_surface :: string
  sf_cost :: int
  sf_context_id :: int
  sf_part_of_speech :: string
  sf_part_of_speech_detail_1 :: string
  sf_part_of_speech_detail_2 :: string
  sf_part_of_speech_detail_3 :: string
  sf_inflectional_type :: string
  sf_inflectional_form :: string
  sf_stem :: string
  sf_yomi :: string
  sf_pronunciation :: string
  sf_accent_type :: int
  sf_mora_count :: int
  sf_accent_associative_rule :: string

text \<open>
  A row of \<^verbatim>\<open>part_of_speech_data\<close>, with the fields that \<^verbatim>\<open>import_user_dict\<close> reads.
\<close>

record PartOfSpeechDetail =
  pos_context_id :: int
  pos_part_of_speech :: string
  pos_part_of_speech_detail_1 :: string
  pos_part_of_speech_detail_2 :: string
  pos_part_of_speech_detail_3 :: string
  pos_accent_associative_rules :: "string list"

subsection \<open>The environment\<close>

text \<open>
  What the manager uses and the sources do not hold: the table and the functions of
  \<^verbatim>\<open>user_dict_word.py\<close>, the platform, the two operations of \<^verbatim>\<open>pyopenjtalk\<close> and the
  two calls into the Windows kernel. \<open>mecab_dict_index\<close> gets the text of the export
  file; it raises, or returns without writing its output, or writes the compiled index.
\<close>

type_synonym index = string

datatype compile_result = CompileRaises | NoArtifact | Artifact index

record 'p env =
  part_of_speech_data :: "PartOfSpeechDetail list"
  priority2cost :: "int \<Rightarrow> int \<Rightarrow> int"
  cost2priority :: "int \<Rightarrow> int \<Rightarrow> int"
  create_word :: "'p \<Rightarrow> error + UserDictWord"
  win32 :: bool
  mecab_dict_index :: "string \<Rightarrow> compile_result"
  update_global_jtalk_with_user_dict :: "index \<Rightarrow> bool"
  CreateFileW :: "string \<Rightarrow> bool"
  CloseHandle :: "string \<Rightarrow> bool"

text \<open>
  Modelled from the spec: \<^verbatim>\<open>convert_to_save_format\<close> and \<^verbatim>\<open>convert_from_save_format\<close>
  of \<^verbatim>\<open>user_dict_word.py\<close>, which are not among the sources. A cost is stored instead
  of the priority and is converted in both directions; the other fields are kept.
\<close>

definition convert_to_save_format :: "'p env \<Rightarrow> UserDictWord \<Rightarrow> SaveFormatUserDictWord" where
  "convert_to_save_format E word =
     \<lparr> sf_surface = surface word,
       sf_cost = priority2cost E (context_id word) (priority word),
       sf_context_id = context_id word,
       sf_part_of_speech = part_of_speech word,
       sf_part_of_speech_detail_1 = part_of_speech_detail_1 word,
       sf_part_of_speech_detail_2 = part_of_speech_detail_2 word,
       sf_part_of_speech_detail_3 = part_of_speech_detail_3 word,
       sf_inflectional_type = inflectional_type word,
       sf_inflectional_form = inflectional_form word,
       sf_stem = stem word,
       sf_yomi = yomi word,
       sf_pronunciation = pronunciation word,
       sf_accent_type = accent_type word,
       sf_mora_count = mora_count word,
       sf_accent_associative_rule = accent_associative_rule word \<rparr>"

definition convert_from_save_format :: "'p env \<Rightarrow> SaveFormatUserDictWord \<Rightarrow> UserDictWord" where
  "convert_from_save_format E word =
     \<lparr> surface = sf_surface word,
       priority = cost2priority E (sf_context_id word) (sf_cost word),
       context_id = sf_context_id word,
       part_of_speech = sf_part_of_speech word,
       part_of_speech_detail_1 = sf_part_of_speech_detail_1 word,
       part_of_speech_detail_2 = sf_part_of_speech_detail_2 word,
       part_of_speech_detail_3 = sf_part_of_speech_detail_3 word,
       inflectional_type = sf_inflectional_type word,
       inflectional_form = sf_inflectional_form word,
       stem = sf_stem word,
       yomi = sf_yomi word,
       pronunciation = sf_pronunciation word,
       accent_type = sf_accent_type word,
       mora_count = sf_mora_count word,
       accent_associative_rule = sf_accent_associative_rule word \<rparr>"

subsection \<open>The files\<close>

text \<open>
  The manager works on four kinds of files: the default dictionary, the user dictionary
  and, for every run of \<^verbatim>\<open>update_dict\<close>, an export file and a compiled file whose
  names hold a fresh UUID. The state has one slot for each of the first two and two
  maps from the UUID string to the temporary files; the four kinds are taken to lie at
  different paths. The user dictionary file holds a document that passes the schema of
  line 238, or something else. The encoding of a document as JSON text by
  \<^verbatim>\<open>dump_json\<close> and its decoding by \<^verbatim>\<open>json.load\<close> are not modelled: the file holds the
  document. \<open>warnings\<close> lists the messages that were passed to \<^verbatim>\<open>warnings.warn\<close>; which
  of them Python shows is decided by its warning filters, which are not modelled.
\<close>

datatype stored = JsonDoc "SaveFormatUserDictWord pydict" | Malformed string

record world =
  default_dict_file :: "string option"
  user_dict_file :: "stored option"
  tmp_csv_files :: "string \<rightharpoonup> string"
  tmp_compiled_files :: "string \<rightharpoonup> index"
  delete_on_close :: "string set"
  jtalk_user_dict :: "index option"
  warnings :: "string list"

subsection \<open>Reading and writing the user dictionary\<close>

text \<open>The loop of \<^verbatim>\<open>read_dict\<close>, lines 240 and 241.\<close>

fun read_loop ::
  "'p env \<Rightarrow> SaveFormatUserDictWord pydict \<Rightarrow> UserDictWord pydict \<Rightarrow> error + UserDictWord pydict"
where
  "read_loop E [] result = Inr result"
| "read_loop E ((word_uuid, word) # rest) result =
     (case UUID word_uuid of
        Inl e \<Rightarrow> Inl e
      | Inr u \<Rightarrow> read_loop E rest (dict_set (uuid_str u) (convert_from_save_format E word) result))"

definition read_dict :: "'p env \<Rightarrow> world \<Rightarrow> error + UserDictWord pydict" where
  "read_dict E w =
     (case user_dict_file w of
        None \<Rightarrow> Inr []
      | Some (Malformed t) \<Rightarrow> Inl JSONDecodeError
      | Some (JsonDoc save_format_dict) \<Rightarrow> read_loop E save_format_dict [])"

text \<open>The loop of \<^verbatim>\<open>_write_to_json\<close>, lines 147 to 149.\<close>

fun save_loop ::
  "'p env \<Rightarrow> UserDictWord pydict \<Rightarrow> SaveFormatUserDictWord pydict \<Rightarrow> SaveFormatUserDictWord pydict"
where
  "save_loop E [] save_format_user_dict = save_format_user_dict"
| "save_loop E ((word_uuid, word) # rest) save_format_user_dict =
     save_loop E rest (dict_set word_uuid (convert_to_save_format E word) save_format_user_dict)"

text \<open>
  \<^verbatim>\<open>Path.write_bytes\<close> opens the file in mode \<^verbatim>\<open>wb\<close>, which creates it or cuts it
  to length zero, writes the data and closes the file. \<open>write_bytes_states\<close> lists the
  states the files go through.
\<close>

definition open_wb :: "world \<Rightarrow> world" where
  "open_wb w = w\<lparr>user_dict_file := Some (Malformed [])\<rparr>"

definition write_data :: "stored \<Rightarrow> world \<Rightarrow> world" where
  "write_data data w = w\<lparr>user_dict_file := Some data\<rparr>"

definition write_bytes :: "stored \<Rightarrow> world \<Rightarrow> world" where
  "write_bytes data w = write_data data (open_wb w)"

definition write_bytes_states :: "stored \<Rightarrow> world \<Rightarrow> world list" where
  "write_bytes_states data w = [w, open_wb w, write_data data (open_wb w)]"

definition write_to_json :: "'p env \<Rightarrow> UserDictWord pydict \<Rightarrow> world \<Rightarrow> world" where
  "write_to_json E user_dict w = write_bytes (JsonDoc (save_loop E user_dict [])) w"

subsection \<open>Exporting and recompiling\<close>

text \<open>\<^verbatim>\<open>str\<close> of an integer, for the fields that \<^verbatim>\<open>format\<close> prints in line 190.\<close>

function str_nat :: "nat \<Rightarrow> string" where
  "str_nat n =
     (if n < 10 then [''0123456789'' ! n]
      else str_nat (n div 10) @ [''0123456789'' ! (n mod 10)])"
  by pat_completeness auto
termination
  by (relation "measure id") auto

declare str_nat.simps [simp del]

definition str_int :: "int \<Rightarrow> string" where
  "str_int i = (if i < 0 then ''-'' @ str_nat (nat (- i)) else str_nat (nat i))"

text \<open>\<^verbatim>\<open>str.rstrip()\<close>, on the blank characters of ASCII.\<close>

definition is_space :: "char \<Rightarrow> bool" where
  "is_space c =
     (c \<in> set [CHR 0x09, CHR 0x0A, CHR 0x0B, CHR 0x0C, CHR 0x0D,
                CHR 0x1C, CHR 0x1D, CHR 0x1E, CHR 0x1F, CHR 0x20])"

definition rstrip :: "string \<Rightarrow> string" where
  "rstrip s = rev (dropWhile is_space (rev s))"

text \<open>The line that lines 184 to 206 add for one word.\<close>

definition csv_line :: "'p env \<Rightarrow> UserDictWord \<Rightarrow> string" where
  "csv_line E word =
     surface word @ '','' @ str_int (context_id word) @ '','' @ str_int (context_id word)
     @ '','' @ str_int (priority2cost E (context_id word) (priority word))
     @ '','' @ part_of_speech word
     @ '','' @ part_of_speech_detail_1 word @ '','' @ part_of_speech_detail_2 word
     @ '','' @ part_of_speech_detail_3 word @ '','' @ inflectional_type word
     @ '','' @ inflectional_form word @ '','' @ stem word @ '','' @ yomi word
     @ '','' @ pronunciation word
     @ '','' @ str_int (accent_type word) @ ''/'' @ str_int (mora_count word)
     @ '','' @ accent_associative_rule word @ [CHR 0x0A]"

fun csv_loop :: "'p env \<Rightarrow> UserDictWord pydict \<Rightarrow> string \<Rightarrow> string" where
  "csv_loop E [] csv_text = csv_text"
| "csv_loop E ((word_uuid, word) # rest) csv_text = csv_loop E rest (csv_text @ csv_line E word)"

text \<open>
  \<^verbatim>\<open>_delete_file_on_close\<close>. On Windows the file is opened with
  \<^verbatim>\<open>FILE_FLAG_DELETE_ON_CLOSE\<close> and the handle is closed; the file then goes when its
  last handle is closed, which the state does not follow: it records the request.
  Elsewhere the file is unlinked.
\<close>

definition delete_file_on_close :: "'p env \<Rightarrow> string \<Rightarrow> world \<Rightarrow> (error + unit) \<times> world" where
  "delete_file_on_close E name w =
     (if win32 E then
        (if \<not> CreateFileW E name then (Inl RuntimeError_CreateFileW, w)
         else
           let w' = w\<lparr>delete_on_close := insert name (delete_on_close w)\<rparr>
           in if \<not> CloseHandle E name then (Inl RuntimeError_CloseHandle, w')
              else (Inr (), w'))
      else (Inr (), w\<lparr>tmp_compiled_files := (tmp_compiled_files w)(name := None)\<rparr>))"

text \<open>The \<^verbatim>\<open>try\<close> block of \<^verbatim>\<open>update_dict\<close>, lines 168 to 218.\<close>

definition update_dict_try :: "'p env \<Rightarrow> string \<Rightarrow> world \<Rightarrow> (error + unit) \<times> world" where
  "update_dict_try E name w =
     (case default_dict_file w of
        None \<Rightarrow> (Inr (), w\<lparr>warnings := warnings w @ [''Cannot find default dictionary.'']\<rparr>)
      | Some default_dict \<Rightarrow>
          let default_dict =
                (if default_dict = rstrip default_dict then default_dict @ [CHR 0x0A]
                 else default_dict);
              csv_text = [] @ default_dict
          in (case read_dict E w of
                Inl e \<Rightarrow> (Inl e, w)
              | Inr user_dict \<Rightarrow>
                  let csv_text = csv_loop E user_dict csv_text;
                      w1 = w\<lparr>tmp_csv_files := (tmp_csv_files w)(name \<mapsto> csv_text)\<rparr>
                  in (case mecab_dict_index E csv_text of
                        CompileRaises \<Rightarrow> (Inl MecabDictIndexError, w1)
                      | r \<Rightarrow>
                          let w2 = (case r of
                                      Artifact compiled \<Rightarrow>
                                        w1\<lparr>tmp_compiled_files :=
                                             (tmp_compiled_files w1)(name \<mapsto> compiled)\<rparr>
                                    | _ \<Rightarrow> w1)
                          in (case tmp_compiled_files w2 name of
                                None \<Rightarrow> (Inl RuntimeError_compile, w2)
                              | Some compiled \<Rightarrow>
                                  if update_global_jtalk_with_user_dict E compiled
                                  then (Inr (), w2\<lparr>jtalk_user_dict := Some compiled\<rparr>)
                                  else (Inl UpdateGlobalJtalkError, w2)))))"

text \<open>The \<^verbatim>\<open>finally\<close> block, lines 223 to 228.\<close>

definition update_dict_finally :: "'p env \<Rightarrow> string \<Rightarrow> world \<Rightarrow> (error + unit) \<times> world" where
  "update_dict_finally E name w =
     (let w1 = (if tmp_csv_files w name \<noteq> None
                then w\<lparr>tmp_csv_files := (tmp_csv_files w)(name := None)\<rparr>
                else w)
      in if tmp_compiled_files w1 name \<noteq> None then delete_file_on_close E name w1
         else (Inr (), w1))"

text \<open>
  \<^verbatim>\<open>update_dict\<close>; \<open>random_string\<close> is the value that \<^verbatim>\<open>uuid4()\<close> returns in line 159.
  An exception of the \<^verbatim>\<open>finally\<close> block replaces the outcome of the \<^verbatim>\<open>try\<close> block.
\<close>

definition update_dict :: "'p env \<Rightarrow> nat \<Rightarrow> world \<Rightarrow> (error + unit) \<times> world" where
  "update_dict E random_string w =
     (let name = uuid_str random_string;
          (res, w1) = update_dict_try E name w;
          (res_f, w2) = update_dict_finally E name w1
      in (case res_f of Inl e \<Rightarrow> (Inl e, w2) | Inr _ \<Rightarrow> (res, w2)))"

subsection \<open>The operations\<close>

text \<open>
  The checks of one imported word against the table, lines 260 to 281. The \<^verbatim>\<open>assert\<close>
  statements are executed, as Python does unless it is run with \<^verbatim>\<open>-O\<close>.
\<close>

fun validate_pos :: "PartOfSpeechDetail list \<Rightarrow> UserDictWord \<Rightarrow> error + unit" where
  "validate_pos [] word = Inl ValueError_unsupported_pos"
| "validate_pos (pos_detail # rest) word =
     (if context_id word = pos_context_id pos_detail then
        (if part_of_speech word \<noteq> pos_part_of_speech pos_detail then Inl AssertionError
         else if part_of_speech_detail_1 word \<noteq> pos_part_of_speech_detail_1 pos_detail
           then Inl AssertionError
         else if part_of_speech_detail_2 word \<noteq> pos_part_of_speech_detail_2 pos_detail
           then Inl AssertionError
         else if part_of_speech_detail_3 word \<noteq> pos_part_of_speech_detail_3 pos_detail
           then Inl AssertionError
         else if accent_associative_rule word \<notin> set (pos_accent_associative_rules pos_detail)
           then Inl AssertionError
         else Inr ())
      else validate_pos rest word)"

fun validate_import :: "'p env \<Rightarrow> UserDictWord pydict \<Rightarrow> error + unit" where
  "validate_import E [] = Inr ()"
| "validate_import E ((word_uuid, word) # rest) =
     (case UUID word_uuid of
        Inl e \<Rightarrow> Inl e
      | Inr u \<Rightarrow>
          (case validate_pos (part_of_speech_data E) word of
             Inl e \<Rightarrow> Inl e
           | Inr _ \<Rightarrow> validate_import E rest))"

text \<open>
  In the four operations, \<open>random_string\<close> is the value of \<^verbatim>\<open>uuid4()\<close> inside
  \<^verbatim>\<open>update_dict\<close> and \<open>new_uuid\<close> the one of line 302.
\<close>

definition import_user_dict ::
  "'p env \<Rightarrow> UserDictWord pydict \<Rightarrow> bool \<Rightarrow> nat \<Rightarrow> world \<Rightarrow> (error + unit) \<times> world"
where
  "import_user_dict E dict_data override random_string w =
     (case validate_import E dict_data of
        Inl e \<Rightarrow> (Inl e, w)
      | Inr _ \<Rightarrow>
          (case read_dict E w of
             Inl e \<Rightarrow> (Inl e, w)
           | Inr old_dict \<Rightarrow>
               let new_dict = (if override then dict_update old_dict dict_data
                               else dict_update dict_data old_dict)
               in update_dict E random_string (write_to_json E new_dict w)))"

definition apply_word ::
  "'p env \<Rightarrow> 'p \<Rightarrow> nat \<Rightarrow> nat \<Rightarrow> world \<Rightarrow> (error + string) \<times> world"
where
  "apply_word E word_property new_uuid random_string w =
     (case read_dict E w of
        Inl e \<Rightarrow> (Inl e, w)
      | Inr user_dict \<Rightarrow>
          let word_uuid = uuid_str new_uuid
          in (case create_word E word_property of
                Inl e \<Rightarrow> (Inl e, w)
              | Inr word \<Rightarrow>
                  (case update_dict E random_string
                          (write_to_json E (dict_set word_uuid word user_dict) w) of
                     (Inl e, w') \<Rightarrow> (Inl e, w')
                   | (Inr _, w') \<Rightarrow> (Inr word_uuid, w'))))"

definition rewrite_word ::
  "'p env \<Rightarrow> string \<Rightarrow> 'p \<Rightarrow> nat \<Rightarrow> world \<Rightarrow> (error + unit) \<times> world"
where
  "rewrite_word E word_uuid word_property random_string w =
     (case read_dict E w of
        Inl e \<Rightarrow> (Inl e, w)
      | Inr user_dict \<Rightarrow>
          if \<not> dict_contains word_uuid user_dict then (Inl UserDictInputError, w)
          else (case create_word E word_property of
                  Inl e \<Rightarrow> (Inl e, w)
                | Inr word \<Rightarrow>
                    update_dict E random_string
                      (write_to_json E (dict_set word_uuid word user_dict) w)))"

definition delete_word ::
  "'p env \<Rightarrow> string \<Rightarrow> nat \<Rightarrow> world \<Rightarrow> (error + unit) \<times> world"
where
  "delete_word E word_uuid random_string w =
     (case read_dict E w of
        Inl e \<Rightarrow> (Inl e, w)
      | Inr user_dict \<Rightarrow>
          if \<not> dict_contains word_uuid user_dict then (Inl UserDictInputError, w)
          else update_dict E random_string (write_to_json E (dict_del word_uuid user_dict) w))"

subsection \<open>Concurrent callers\<close>

text \<open>
  \<^verbatim>\<open>read_dict\<close> and \<^verbatim>\<open>_write_to_json\<close> hold \<^verbatim>\<open>mutex_user_dict\<close> from entry to exit and
  \<^verbatim>\<open>update_dict\<close> holds \<^verbatim>\<open>mutex_openjtalk_dict\<close>; \<^verbatim>\<open>apply_word\<close> itself holds no
  lock. A thread inside \<^verbatim>\<open>apply_word\<close> is therefore at one of four places: called,
  back from \<^verbatim>\<open>read_dict\<close> with its own copy of the dictionary, back from
  \<^verbatim>\<open>_write_to_json\<close>, or returned. A thread that only looks the dictionary up calls
  \<^verbatim>\<open>read_dict\<close>. One step runs the next locked call of a thread to its end; a schedule
  names the thread that moves next. Every run of this model is an execution of the
  program (one in which no thread moves while another is inside a locked method); the
  model that follows it has the locks in the state and the steps inside the methods.
\<close>

datatype 'p thread =
    Apply_called 'p nat nat
  | Apply_has_read "UserDictWord pydict" 'p nat nat
  | Apply_has_written string nat
  | Apply_returned "error + string"
  | Lookup_called
  | Lookup_returned "error + UserDictWord pydict"

definition thread_step :: "'p env \<Rightarrow> 'p thread \<Rightarrow> world \<Rightarrow> 'p thread \<times> world" where
  "thread_step E t w =
     (case t of
        Apply_called word_property new_uuid random_string \<Rightarrow>
          (case read_dict E w of
             Inl e \<Rightarrow> (Apply_returned (Inl e), w)
           | Inr user_dict \<Rightarrow> (Apply_has_read user_dict word_property new_uuid random_string, w))
      | Apply_has_read user_dict word_property new_uuid random_string \<Rightarrow>
          (case create_word E word_property of
             Inl e \<Rightarrow> (Apply_returned (Inl e), w)
           | Inr word \<Rightarrow>
               (Apply_has_written (uuid_str new_uuid) random_string,
                write_to_json E (dict_set (uuid_str new_uuid) word user_dict) w))
      | Apply_has_written word_uuid random_string \<Rightarrow>
          (case update_dict E random_string w of
             (Inl e, w') \<Rightarrow> (Apply_returned (Inl e), w')
           | (Inr _, w') \<Rightarrow> (Apply_returned (Inr word_uuid), w'))
      | Apply_returned r \<Rightarrow> (Apply_returned r, w)
      | Lookup_called \<Rightarrow> (Lookup_returned (read_dict E w), w)
      | Lookup_returned r \<Rightarrow> (Lookup_returned r, w))"

fun run :: "'p env \<Rightarrow> nat list \<Rightarrow> 'p thread list \<Rightarrow> world \<Rightarrow> 'p thread list \<times> world" where
  "run E [] ts w = (ts, w)"
| "run E (i # schedule) ts w =
     (if i < length ts
      then (case thread_step E (ts ! i) w of (t', w') \<Rightarrow> run E schedule (ts[i := t']) w')
      else run E schedule ts w)"

text \<open>The number of entries of the persisted dictionary.\<close>

definition persisted_entries :: "world \<Rightarrow> nat option" where
  "persisted_entries w =
     (case user_dict_file w of
        None \<Rightarrow> Some 0
      | Some (JsonDoc d) \<Rightarrow> Some (length d)
      | Some (Malformed t) \<Rightarrow> None)"

subsection \<open>Concurrent callers at the level of the locks\<close>

text \<open>
  The same callers with the two locks in the state. What a thread still has to do is a
  program: it returns a value, or takes a lock, or releases one, or runs the body of
  \<^verbatim>\<open>read_dict\<close> (lines 234 to 242, one reading of the file), or makes another step on
  the files, and goes on; after a step on the files, how it goes on may depend on the
  files as the step found them. The state has the files and, for each lock, the thread
  that took it. A \<^verbatim>\<open>threading.Lock\<close> has no owner: the number of the thread is kept
  only to say who holds the lock, and \<^verbatim>\<open>release\<close> frees it whoever calls. A thread that
  wants a lock another holds does not move.
\<close>

datatype lock = mutex_user_dict | mutex_openjtalk_dict

datatype 'r prog =
    Return 'r
  | Acquire lock "'r prog"
  | Release lock "'r prog"
  | Load "error + UserDictWord pydict \<Rightarrow> 'r prog"
  | Act "world \<Rightarrow> world" "world \<Rightarrow> 'r prog"

record process =
  files :: world
  locks :: "lock \<Rightarrow> nat option"

fun step :: "'p env \<Rightarrow> nat \<Rightarrow> 'r prog \<Rightarrow> process \<Rightarrow> 'r prog \<times> process" where
  "step E i (Return r) s = (Return r, s)"
| "step E i (Acquire l c) s =
     (if locks s l = None then (c, s\<lparr>locks := (locks s)(l \<mapsto> i)\<rparr>) else (Acquire l c, s))"
| "step E i (Release l c) s = (c, s\<lparr>locks := (locks s)(l := None)\<rparr>)"
| "step E i (Load k) s = (k (read_dict E (files s)), s)"
| "step E i (Act f k) s = (k (files s), s\<lparr>files := f (files s)\<rparr>)"

fun exec :: "'p env \<Rightarrow> nat list \<Rightarrow> 'r prog list \<Rightarrow> process \<Rightarrow> 'r prog list \<times> process" where
  "exec E [] ts s = (ts, s)"
| "exec E (i # schedule) ts s =
     (if i < length ts
      then (case step E i (ts ! i) s of (c, s') \<Rightarrow> exec E schedule (ts[i := c]) s')
      else exec E schedule ts s)"

text \<open>A process that has just started on the files \<open>w\<close>: both locks are free.\<close>

definition start :: "world \<Rightarrow> process" where
  "start w = \<lparr> files = w, locks = (\<lambda>l. None) \<rparr>"

text \<open>
  The three methods under \<^verbatim>\<open>_mutex_wrapper\<close>, lines 31 to 42: the lock is taken, the
  body runs, and the lock is released whether the body returned or raised; \<open>k\<close> is what
  the caller does with the outcome. \<^verbatim>\<open>_write_to_json\<close> makes the two steps of
  \<^verbatim>\<open>Path.write_bytes\<close> in line 151.
\<close>

definition read_dict_locked :: "(error + UserDictWord pydict \<Rightarrow> 'r prog) \<Rightarrow> 'r prog" where
  "read_dict_locked k =
     Acquire mutex_user_dict (Load (\<lambda>res. Release mutex_user_dict (k res)))"

definition write_to_json_locked :: "'p env \<Rightarrow> UserDictWord pydict \<Rightarrow> 'r prog \<Rightarrow> 'r prog" where
  "write_to_json_locked E user_dict k =
     Acquire mutex_user_dict
       (Act open_wb (\<lambda>w.
          Act (write_data (JsonDoc (save_loop E user_dict []))) (\<lambda>w.
            Release mutex_user_dict k)))"

text \<open>
  Lines 182 to 218 of \<^verbatim>\<open>update_dict\<close>, for the text of the default dictionary and the
  user dictionary that the lines before have read.
\<close>

definition update_dict_export ::
  "'p env \<Rightarrow> string \<Rightarrow> string \<Rightarrow> UserDictWord pydict \<Rightarrow> world \<Rightarrow> (error + unit) \<times> world"
where
  "update_dict_export E name default_dict user_dict w =
     (let default_dict =
            (if default_dict = rstrip default_dict then default_dict @ [CHR 0x0A]
             else default_dict);
          csv_text = [] @ default_dict;
          csv_text = csv_loop E user_dict csv_text;
          w1 = w\<lparr>tmp_csv_files := (tmp_csv_files w)(name \<mapsto> csv_text)\<rparr>
      in (case mecab_dict_index E csv_text of
            CompileRaises \<Rightarrow> (Inl MecabDictIndexError, w1)
          | r \<Rightarrow>
              let w2 = (case r of
                          Artifact compiled \<Rightarrow>
                            w1\<lparr>tmp_compiled_files :=
                                 (tmp_compiled_files w1)(name \<mapsto> compiled)\<rparr>
                        | _ \<Rightarrow> w1)
              in (case tmp_compiled_files w2 name of
                    None \<Rightarrow> (Inl RuntimeError_compile, w2)
                  | Some compiled \<Rightarrow>
                      if update_global_jtalk_with_user_dict E compiled
                      then (Inr (), w2\<lparr>jtalk_user_dict := Some compiled\<rparr>)
                      else (Inl UpdateGlobalJtalkError, w2))))"

definition warn :: "string \<Rightarrow> world \<Rightarrow> world" where
  "warn message w = w\<lparr>warnings := warnings w @ [message]\<rparr>"

text \<open>
  \<^verbatim>\<open>update_dict\<close> under \<^verbatim>\<open>mutex_openjtalk_dict\<close>. Its steps are: lines 172 to 178, which
  look for the default dictionary; the call of \<^verbatim>\<open>read_dict\<close> in line 181, which takes
  and releases \<^verbatim>\<open>mutex_user_dict\<close>; lines 182 to 218 in one step, which write and read
  only the temporary files of this run and load the analyzer; the \<^verbatim>\<open>finally\<close> block in
  one step; and the release of the lock.
\<close>

definition update_dict_finally_locked ::
  "'p env \<Rightarrow> string \<Rightarrow> (error + unit \<Rightarrow> 'r prog) \<Rightarrow> error + unit \<Rightarrow> 'r prog"
where
  "update_dict_finally_locked E name k res =
     Act (\<lambda>w. snd (update_dict_finally E name w)) (\<lambda>w.
       Release mutex_openjtalk_dict
         (k (case fst (update_dict_finally E name w) of Inl e \<Rightarrow> Inl e | Inr _ \<Rightarrow> res)))"

definition update_dict_locked :: "'p env \<Rightarrow> nat \<Rightarrow> (error + unit \<Rightarrow> 'r prog) \<Rightarrow> 'r prog" where
  "update_dict_locked E random_string k =
     (let name = uuid_str random_string
      in Acquire mutex_openjtalk_dict
           (Act (\<lambda>w. case default_dict_file w of
                        None \<Rightarrow> warn ''Cannot find default dictionary.'' w
                      | Some default_dict \<Rightarrow> w)
                (\<lambda>w. case default_dict_file w of
                        None \<Rightarrow> update_dict_finally_locked E name k (Inr ())
                      | Some default_dict \<Rightarrow>
                          read_dict_locked (\<lambda>res. case res of
                              Inl e \<Rightarrow> update_dict_finally_locked E name k (Inl e)
                            | Inr user_dict \<Rightarrow>
                                Act (\<lambda>w. snd (update_dict_export E name default_dict user_dict w))
                                    (\<lambda>w. update_dict_finally_locked E name k
                                       (fst (update_dict_export E name default_dict
                                               user_dict w)))))))"

text \<open>
  The calls a thread can make: the four operations, \<^verbatim>\<open>update_dict\<close> as the constructor
  calls it in line 141, and \<^verbatim>\<open>read_dict\<close>. None of the four operations takes a lock
  of its own. \<open>save_and_update\<close> is the common end of the four, the calls of
  \<^verbatim>\<open>_write_to_json\<close> and \<^verbatim>\<open>update_dict\<close>.
\<close>

datatype returned = Returns_None | Returns_str string | Returns_dict "UserDictWord pydict"

datatype 'p call =
    Apply_word 'p nat nat
  | Rewrite_word string 'p nat
  | Delete_word string nat
  | Import_user_dict "UserDictWord pydict" bool nat
  | Update_dict nat
  | Read_dict

definition save_and_update ::
  "'p env \<Rightarrow> UserDictWord pydict \<Rightarrow> nat \<Rightarrow> returned \<Rightarrow> (error + returned) prog"
where
  "save_and_update E user_dict random_string result =
     write_to_json_locked E user_dict
       (update_dict_locked E random_string (\<lambda>res. case res of
            Inl e \<Rightarrow> Return (Inl e)
          | Inr _ \<Rightarrow> Return (Inr result)))"

fun program :: "'p env \<Rightarrow> 'p call \<Rightarrow> (error + returned) prog" where
  "program E (Apply_word word_property new_uuid random_string) =
     read_dict_locked (\<lambda>res. case res of
         Inl e \<Rightarrow> Return (Inl e)
       | Inr user_dict \<Rightarrow>
           let word_uuid = uuid_str new_uuid
           in (case create_word E word_property of
                 Inl e \<Rightarrow> Return (Inl e)
               | Inr word \<Rightarrow>
                   save_and_update E (dict_set word_uuid word user_dict) random_string
                     (Returns_str word_uuid)))"
| "program E (Rewrite_word word_uuid word_property random_string) =
     read_dict_locked (\<lambda>res. case res of
         Inl e \<Rightarrow> Return (Inl e)
       | Inr user_dict \<Rightarrow>
           if \<not> dict_contains word_uuid user_dict then Return (Inl UserDictInputError)
           else (case create_word E word_property of
                   Inl e \<Rightarrow> Return (Inl e)
                 | Inr word \<Rightarrow>
                     save_and_update E (dict_set word_uuid word user_dict) random_string
                       Returns_None))"
| "program E (Delete_word word_uuid random_string) =
     read_dict_locked (\<lambda>res. case res of
         Inl e \<Rightarrow> Return (Inl e)
       | Inr user_dict \<Rightarrow>
           if \<not> dict_contains word_uuid user_dict then Return (Inl UserDictInputError)
           else save_and_update E (dict_del word_uuid user_dict) random_string Returns_None)"
| "program E (Import_user_dict dict_data override random_string) =
     (case validate_import E dict_data of
        Inl e \<Rightarrow> Return (Inl e)
      | Inr _ \<Rightarrow>
          read_dict_locked (\<lambda>res. case res of
              Inl e \<Rightarrow> Return (Inl e)
            | Inr old_dict \<Rightarrow>
                save_and_update E
                  (if override then dict_update old_dict dict_data
                   else dict_update dict_data old_dict)
                  random_string Returns_None))"
| "program E (Update_dict random_string) =
     update_dict_locked E random_string (\<lambda>res. case res of
         Inl e \<Rightarrow> Return (Inl e)
       | Inr _ \<Rightarrow> Return (Inr Returns_None))"
| "program E Read_dict =
     read_dict_locked (\<lambda>res. case res of
         Inl e \<Rightarrow> Return (Inl e)
       | Inr user_dict \<Rightarrow> Return (Inr (Returns_dict user_dict)))"

text \<open>
  The callers \<open>calls\<close>, started together in one process on the files \<open>w\<close>, after the
  steps that \<open>schedule\<close> names: what each has left to do, and the state. A thread that
  makes several calls one after the other is here several callers, scheduled in that
  order.
\<close>

definition concurrently ::
  "'p env \<Rightarrow> nat list \<Rightarrow> 'p call list \<Rightarrow> world \<Rightarrow> (error + returned) prog list \<times> process"
where
  "concurrently E schedule calls w = exec E schedule (map (program E) calls) (start w)"

text \<open>
  What a thread of the coarser model above has left to do, as a program with locks: a
  step of that model is a run of such a program from one return of a locked method to
  the next.
\<close>

fun lock_level :: "'p env \<Rightarrow> 'p thread \<Rightarrow> (error + returned) prog" where
  "lock_level E (Apply_called word_property new_uuid random_string) =
     program E (Apply_word word_property new_uuid random_string)"
| "lock_level E (Apply_has_read user_dict word_property new_uuid random_string) =
     (case create_word E word_property of
        Inl e \<Rightarrow> Return (Inl e)
      | Inr word \<Rightarrow>
          save_and_update E (dict_set (uuid_str new_uuid) word user_dict) random_string
            (Returns_str (uuid_str new_uuid)))"
| "lock_level E (Apply_has_written word_uuid random_string) =
     update_dict_locked E random_string (\<lambda>res. case res of
         Inl e \<Rightarrow> Return (Inl e)
       | Inr _ \<Rightarrow> Return (Inr (Returns_str word_uuid)))"
| "lock_level E (Apply_returned res) = Return (map_sum id Returns_str res)"
| "lock_level E Lookup_called = program E Read_dict"
| "lock_level E (Lookup_returned res) = Return (map_sum id Returns_dict res)"

subsection \<open>An environment and files to run the operations on\<close>

text \<open>
  A table with one row, a cost table in steps of 100, a \<^verbatim>\<open>create_word\<close> that makes a
  word of that row from a surface, a pronunciation and a priority from 0 to 10, a
  compiler that writes its input as the index, and a loader that succeeds.
\<close>

definition example_row :: PartOfSpeechDetail where
  "example_row =
     \<lparr> pos_context_id = 1348, pos_part_of_speech = ''noun'',
       pos_part_of_speech_detail_1 = ''proper'', pos_part_of_speech_detail_2 = ''general'',
       pos_part_of_speech_detail_3 = ''*'', pos_accent_associative_rules = [''*'', ''C1''] \<rparr>"

definition example_word :: "string \<Rightarrow> string \<Rightarrow> int \<Rightarrow> UserDictWord" where
  "example_word s p prio =
     \<lparr> surface = s, priority = prio, context_id = 1348, part_of_speech = ''noun'',
       part_of_speech_detail_1 = ''proper'', part_of_speech_detail_2 = ''general'',
       part_of_speech_detail_3 = ''*'', inflectional_type = ''*'', inflectional_form = ''*'',
       stem = ''*'', yomi = p, pronunciation = p, accent_type = 0, mora_count = 2,
       accent_associative_rule = ''*'' \<rparr>"

definition example_env :: "(string \<times> string \<times> int) env" where
  "example_env =
     \<lparr> part_of_speech_data = [example_row],
       priority2cost = (\<lambda>c p. 8600 - 100 * p),
       cost2priority = (\<lambda>c x. (8600 - x) div 100),
       create_word = (\<lambda>(s, p, prio).
          if 0 \<le> prio \<and> prio \<le> 10 then Inr (example_word s p prio)
          else Inl UserDictInputError),
       win32 = False,
       mecab_dict_index = (\<lambda>csv. Artifact csv),
       update_global_jtalk_with_user_dict = (\<lambda>i. True),
       CreateFileW = (\<lambda>n. True),
       CloseHandle = (\<lambda>n. True) \<rparr>"

definition example_world :: world where
  "example_world =
     \<lparr> default_dict_file = Some ''tokyo,1348,1348,8600,noun'',
       user_dict_file = None,
       tmp_csv_files = Map.empty,
       tmp_compiled_files = Map.empty,
       delete_on_close = {},
       jtalk_user_dict = None,
       warnings = [] \<rparr>"

text \<open>Files whose user dictionary has an uppercase key and a braced key.\<close>

definition noncanonical_world :: world where
  "noncanonical_world =
     example_world\<lparr>user_dict_file := Some (JsonDoc
       [(''00000000-0000-0000-0000-0000000000AB'',
         convert_to_save_format example_env (example_word ''a'' ''b'' 5)),
        (''{00000000-0000-0000-0000-00000000000a}'',
         convert_to_save_format example_env (example_word ''c'' ''d'' 5))])\<rparr>"

text \<open>The same environment on Windows.\<close>

definition example_env_win32 :: "(string \<times> string \<times> int) env" where
  "example_env_win32 = example_env\<lparr>win32 := True\<rparr>"

text \<open>The example files without the default dictionary.\<close>

definition no_default_world :: world where
  "no_default_world = example_world\<lparr>default_dict_file := None\<rparr>"

text \<open>
  The conversion from cost to priority undoes the conversion from priority to cost on
  every word of a dictionary.
\<close>

definition codec_inverse_on :: "'p env \<Rightarrow> UserDictWord pydict \<Rightarrow> bool" where
  "codec_inverse_on E d =
     list_all (\<lambda>kv. cost2priority E (context_id (snd kv))
                       (priority2cost E (context_id (snd kv)) (priority (snd kv)))
                     = priority (snd kv)) d"

text \<open>Files whose user dictionary holds two words.\<close>

definition two_word_world :: world where
  "two_word_world =
     example_world\<lparr>user_dict_file := Some (JsonDoc
       [(uuid_str 10, convert_to_save_format example_env (example_word ''c'' ''d'' 5)),
        (uuid_str 11, convert_to_save_format example_env (example_word ''e'' ''f'' 6))])\<rparr>"

text \<open>
  The two ways a compilation fails: the compiler raises, or line 213 raises because the
  compiled file is not there.
\<close>

definition is_compilation_error :: "error + 'a \<Rightarrow> bool" where
  "is_compilation_error res =
     (res = Inl MecabDictIndexError \<or> res = Inl RuntimeError_compile)"

text \<open>The example environment with a compiler that writes no output.\<close>

definition failing_env :: "(string \<times> string \<times> int) env" where
  "failing_env = example_env\<lparr>mecab_dict_index := (\<lambda>csv. NoArtifact)\<rparr>"

text \<open>A key that \<^verbatim>\<open>str(UUID(key))\<close> gives back unchanged.\<close>

definition normalised_key :: "string \<Rightarrow> bool" where
  "normalised_key k = (case UUID k of Inl e \<Rightarrow> False | Inr u \<Rightarrow> uuid_str u = k)"

text \<open>
  A word agrees with a row of the table: the four part-of-speech fields are equal and
  the row lists the accent-associative rule of the word.
\<close>

definition matches_row :: "PartOfSpeechDetail \<Rightarrow> UserDictWord \<Rightarrow> bool" where
  "matches_row pos_detail word =
     (part_of_speech word = pos_part_of_speech pos_detail
      \<and> part_of_speech_detail_1 word = pos_part_of_speech_detail_1 pos_detail
      \<and> part_of_speech_detail_2 word = pos_part_of_speech_detail_2 pos_detail
      \<and> part_of_speech_detail_3 word = pos_part_of_speech_detail_3 pos_detail
      \<and> accent_associative_rule word \<in> set (pos_accent_associative_rules pos_detail))"

text \<open>
  Two words that the example table does not accept: one whose part of speech differs from
  the row with its context id, one whose context id no row has.
\<close>

definition mismatched_word :: UserDictWord where
  "mismatched_word = (example_word ''g'' ''h'' 5)\<lparr>part_of_speech := ''verb''\<rparr>"

definition unknown_pos_word :: UserDictWord where
  "unknown_pos_word = (example_word ''g'' ''h'' 5)\<lparr>context_id := 1\<rparr>"

text \<open>
  The error that the check of lines 258 to 281 ends with on one word and on one entry
  of the batch, told by the table: no row has the context id of the word
  (\<^verbatim>\<open>ValueError\<close>, line 281), or the first row that has it does not agree with the word
  (\<^verbatim>\<open>AssertionError\<close>, lines 262 to 278); for an entry, before that, its key is not a
  UUID (\<^verbatim>\<open>ValueError\<close>, line 259). \<open>None\<close> when the check passes.
\<close>

definition category_error :: "PartOfSpeechDetail list \<Rightarrow> UserDictWord \<Rightarrow> error option" where
  "category_error table word =
     (case find (\<lambda>row. pos_context_id row = context_id word) table of
        None \<Rightarrow> Some ValueError_unsupported_pos
      | Some row \<Rightarrow> if matches_row row word then None else Some AssertionError)"

definition entry_error :: "'p env \<Rightarrow> string \<times> UserDictWord \<Rightarrow> error option" where
  "entry_error E kv =
     (case UUID (fst kv) of
        Inl e \<Rightarrow> Some ValueError_badly_formed_uuid
      | Inr u \<Rightarrow> category_error (part_of_speech_data E) (snd kv))"

text \<open>The user dictionary file is absent or holds a whole document.\<close>

definition whole_document :: "world \<Rightarrow> bool" where
  "whole_document w =
     (case user_dict_file w of
        None \<Rightarrow> True
      | Some (JsonDoc d) \<Rightarrow> True
      | Some (Malformed t) \<Rightarrow> False)"

subsection \<open>The use of \<^verbatim>\<open>mutex_user_dict\<close>\<close>

text \<open>
  Where a thread stands with respect to \<^verbatim>\<open>mutex_user_dict\<close>: it does not hold the lock;
  it holds the lock and the file is whole; it holds the lock and has cut the file, and
  its next step writes the document. \<open>locked_access P ph c\<close> says that the program \<open>c\<close>,
  run by a thread that stands at \<open>ph\<close>, reads the user dictionary file only while it
  holds the lock, changes the file only while it holds the lock, by a cut that the
  writing of a document follows, releases the lock only when the file is whole, and
  returns values that satisfy \<open>P\<close>, provided that no reading of the file meets a
  document that is not whole.
\<close>

datatype phase = Outside | Holding | Writing

inductive locked_access :: "('r \<Rightarrow> bool) \<Rightarrow> phase \<Rightarrow> 'r prog \<Rightarrow> bool" for P :: "'r \<Rightarrow> bool" where
  la_Return: "P r \<Longrightarrow> locked_access P Outside (Return r)"
| la_Acquire: "locked_access P Holding c \<Longrightarrow> locked_access P Outside (Acquire mutex_user_dict c)"
| la_Release: "locked_access P Outside c \<Longrightarrow> locked_access P Holding (Release mutex_user_dict c)"
| la_Acquire_other:
    "locked_access P Outside c \<Longrightarrow> locked_access P Outside (Acquire mutex_openjtalk_dict c)"
| la_Release_other:
    "locked_access P Outside c \<Longrightarrow> locked_access P Outside (Release mutex_openjtalk_dict c)"
| la_Load:
    "(\<And>res. res \<noteq> Inl JSONDecodeError \<Longrightarrow> locked_access P Holding (k res))
     \<Longrightarrow> locked_access P Holding (Load k)"
| la_Act:
    "(\<And>w. user_dict_file (f w) = user_dict_file w) \<Longrightarrow> (\<And>w. locked_access P Outside (k w))
     \<Longrightarrow> locked_access P Outside (Act f k)"
| la_Act_open:
    "(\<And>w. \<not> whole_document (f w)) \<Longrightarrow> (\<And>w. locked_access P Writing (k w))
     \<Longrightarrow> locked_access P Holding (Act f k)"
| la_Act_write:
    "(\<And>w. whole_document (f w)) \<Longrightarrow> (\<And>w. locked_access P Holding (k w))
     \<Longrightarrow> locked_access P Writing (Act f k)"

definition phase_of :: "process \<Rightarrow> nat \<Rightarrow> phase" where
  "phase_of s i =
     (if locks s mutex_user_dict = Some i
      then (if whole_document (files s) then Holding else Writing)
      else Outside)"

text \<open>What a call may return: \<^verbatim>\<open>read_dict\<close> does not fail on the decoding of the file.\<close>

definition allowed :: "'p call \<Rightarrow> error + returned \<Rightarrow> bool" where
  "allowed c r = (c = Read_dict \<longrightarrow> r \<noteq> Inl JSONDecodeError)"

text \<open>
  The state of the threads and the files agree: every thread has a program that uses
  the lock as said, from where it stands, and the file is whole unless a thread holds
  the lock.
\<close>

definition disciplined :: "(nat \<Rightarrow> 'r \<Rightarrow> bool) \<Rightarrow> 'r prog list \<Rightarrow> process \<Rightarrow> bool" where
  "disciplined P ts s =
     ((\<forall>i < length ts. locked_access (P i) (phase_of s i) (ts ! i))
      \<and> (whole_document (files s) \<or> (\<exists>i < length ts. locks s mutex_user_dict = Some i)))"

section \<open>Properties\<close>

subsection \<open>UUID strings\<close>

lemma length_hex_pad [simp]: "length (hex_pad k n) = k"
  by (induction k arbitrary: n) auto

lemma hex_chr_lower: "hex_chr d \<in> set ''0123456789abcdef''"
  unfolding hex_chr_def by (rule nth_mem) simp

lemma lower_hex_Nil: "lower_hex []"
  by (simp add: lower_hex_def)

lemma lower_hex_append: "lower_hex (xs @ ys) = (lower_hex xs \<and> lower_hex ys)"
  by (simp add: lower_hex_def)

lemma lower_hex_single: "lower_hex [hex_chr d]"
  using hex_chr_lower [of d] by (simp add: lower_hex_def)

lemma lower_hex_hex_pad: "lower_hex (hex_pad k n)"
  by (induction k arbitrary: n) (simp_all add: lower_hex_Nil lower_hex_append lower_hex_single)

lemma lower_hex_take: "lower_hex xs \<Longrightarrow> lower_hex (take k xs)"
  unfolding lower_hex_def list_all_iff by (blast dest: in_set_takeD)

lemma lower_hex_drop: "lower_hex xs \<Longrightarrow> lower_hex (drop k xs)"
  unfolding lower_hex_def list_all_iff by (blast dest: in_set_dropD)

lemma hex_val_table: "\<forall>i \<in> set [0..<16]. hex_val (''0123456789abcdef'' ! i) = Some i"
  by code_simp

lemma hex_val_hex_chr: "hex_val (hex_chr d) = Some (d mod 16)"
proof -
  have "d mod 16 \<in> set [0..<16]" by simp
  with hex_val_table show ?thesis unfolding hex_chr_def by blast
qed

lemma parse_hex_append:
  "parse_hex acc (xs @ ys) = (case parse_hex acc xs of None \<Rightarrow> None | Some a \<Rightarrow> parse_hex a ys)"
  by (induction xs arbitrary: acc) (auto split: option.splits)

lemma parse_hex_hex_pad: "parse_hex acc (hex_pad k n) = Some (acc * 16 ^ k + n mod 16 ^ k)"
proof (induction k arbitrary: n)
  case 0
  show ?case by simp
next
  case (Suc k)
  have "n mod (16 * 16 ^ k) = 16 * (n div 16 mod 16 ^ k) + n mod 16"
    by (rule mod_mult2_eq)
  then show ?case
    by (simp add: parse_hex_append Suc hex_val_hex_chr algebra_simps)
qed

lemma canonical_uuid_uuid_str: "canonical_uuid (uuid_str n)"
proof -
  define h where "h = hex_pad 32 n"
  have len: "length h = 32" by (simp add: h_def)
  have lh: "lower_hex h" by (simp add: h_def lower_hex_hex_pad)
  have u: "uuid_str n = take 8 h @ ''-'' @ take 4 (drop 8 h) @ ''-'' @ take 4 (drop 12 h) @ ''-''
         @ take 4 (drop 16 h) @ ''-'' @ drop 20 h"
    by (simp add: uuid_str_def h_def Let_def)
  show ?thesis
    unfolding canonical_uuid_def u
    by (simp add: len lh lower_hex_take lower_hex_drop nth_append)
qed

lemma hex_pad_chars: "c \<in> set (hex_pad k n) \<Longrightarrow> c \<in> set ''0123456789abcdef''"
  using lower_hex_hex_pad [of k n] unfolding lower_hex_def list_all_iff by blast

lemma uuid_str_unfold:
  "uuid_str n = take 8 (hex_pad 32 n) @ ''-'' @ take 4 (drop 8 (hex_pad 32 n)) @ ''-''
     @ take 4 (drop 12 (hex_pad 32 n)) @ ''-'' @ take 4 (drop 16 (hex_pad 32 n)) @ ''-''
     @ drop 20 (hex_pad 32 n)"
  by (simp add: uuid_str_def Let_def)

lemma uuid_str_chars:
  "c \<in> set (uuid_str n) \<Longrightarrow> c = CHR ''-'' \<or> c \<in> set (hex_pad 32 n)"
  unfolding uuid_str_unfold by (auto dest: in_set_takeD in_set_dropD)

lemma remove_sub_id: "p \<noteq> [] \<Longrightarrow> hd p \<notin> set s \<Longrightarrow> remove_sub p s = s"
proof (induction s)
  case Nil
  show ?case by simp
next
  case (Cons c cs)
  from Cons.prems(1) obtain x xs where p: "p = x # xs" by (cases p) auto
  with Cons.prems(2) have "x \<noteq> c" by auto
  then have "take (length p) (c # cs) \<noteq> p" by (simp add: p)
  moreover have "remove_sub p cs = cs" using Cons by simp
  ultimately show ?case by simp
qed

lemma dropWhile_none: "(\<And>c. c \<in> set s \<Longrightarrow> \<not> P c) \<Longrightarrow> dropWhile P s = s"
  by (cases s) auto

lemma strip_braces_id: "(\<And>c. c \<in> set s \<Longrightarrow> \<not> is_brace c) \<Longrightarrow> strip_braces s = s"
proof -
  assume a: "\<And>c. c \<in> set s \<Longrightarrow> \<not> is_brace c"
  have 1: "dropWhile is_brace s = s" using a by (rule dropWhile_none)
  have 2: "dropWhile is_brace (rev s) = rev s" using a by (intro dropWhile_none) simp
  show ?thesis by (simp add: strip_braces_def 1 2)
qed

lemma filter_uuid_str: "filter (\<lambda>c. c \<noteq> CHR ''-'') (uuid_str n) = hex_pad 32 n"
proof -
  define h where "h = hex_pad 32 n"
  have nohyp: "\<And>c. c \<in> set h \<Longrightarrow> c \<noteq> CHR ''-''"
    using hex_pad_chars [of _ 32 n] unfolding h_def by auto
  have f: "\<And>xs. set xs \<subseteq> set h \<Longrightarrow> filter (\<lambda>c. c \<noteq> CHR ''-'') xs = xs"
    using nohyp by (auto simp: filter_id_conv)
  have t: "\<And>k. set (take k h) \<subseteq> set h" by (rule set_take_subset)
  have td: "\<And>k j. set (take k (drop j h)) \<subseteq> set h"
    by (meson in_set_dropD in_set_takeD subsetI)
  have d: "\<And>k. set (drop k h) \<subseteq> set h" by (rule set_drop_subset)
  have "take 8 h @ take 4 (drop 8 h) @ take 4 (drop 12 h) @ take 4 (drop 16 h) @ drop 20 h = h"
  proof -
    have a: "take 4 (drop 16 h) @ drop 20 h = drop 16 h"
      using append_take_drop_id [of 4 "drop 16 h"] by simp
    have b: "take 4 (drop 12 h) @ drop 16 h = drop 12 h"
      using append_take_drop_id [of 4 "drop 12 h"] by simp
    have c: "take 4 (drop 8 h) @ drop 12 h = drop 8 h"
      using append_take_drop_id [of 4 "drop 8 h"] by simp
    show ?thesis by (simp add: a b c)
  qed
  then show ?thesis
    unfolding uuid_str_unfold h_def [symmetric] by (simp add: f t td d)
qed

lemma UUID_uuid_str: "UUID (uuid_str n) = Inr (n mod 16 ^ 32)"
proof -
  have chars: "\<And>c. c \<in> set (uuid_str n) \<Longrightarrow> c = CHR ''-'' \<or> c \<in> set ''0123456789abcdef''"
    using uuid_str_chars hex_pad_chars by blast
  have u: "CHR ''u'' \<notin> set (uuid_str n)" using chars by fastforce
  have r1: "remove_sub ''urn:'' (uuid_str n) = uuid_str n"
    using u by (simp add: remove_sub_id)
  have r2: "remove_sub ''uuid:'' (uuid_str n) = uuid_str n"
    using u by (simp add: remove_sub_id)
  have "\<And>c. c \<in> set (uuid_str n) \<Longrightarrow> \<not> is_brace c"
    using chars unfolding is_brace_def by fastforce
  then have sb: "strip_braces (uuid_str n) = uuid_str n" by (rule strip_braces_id)
  show ?thesis
    by (simp add: UUID_def r1 r2 sb filter_uuid_str parse_hex_hex_pad)
qed

subsection \<open>Python dictionaries\<close>


lemma keys_dict_set: "fst ` set (dict_set k v d) = insert k (fst ` set d)"
  by (induction k v d rule: dict_set.induct) (simp_all add: insert_commute)

lemma distinct_dict_set:
  "distinct (map fst d) \<Longrightarrow> distinct (map fst (dict_set k v d))"
  by (induction k v d rule: dict_set.induct) (auto simp: keys_dict_set)

lemma dict_set_new: "k \<notin> fst ` set d \<Longrightarrow> dict_set k v d = d @ [(k, v)]"
  by (induction k v d rule: dict_set.induct) auto

lemma length_dict_set:
  "length (dict_set k v d) = (if k \<in> fst ` set d then length d else Suc (length d))"
  by (induction k v d rule: dict_set.induct) simp_all

lemma map_of_dict_del: "map_of (dict_del k d) = (map_of d)(k := None)"
  by (induction d) (auto simp: dict_del_def fun_eq_iff)

lemma keys_dict_del: "fst ` set (dict_del k d) = fst ` set d - {k}"
  by (auto simp: dict_del_def image_iff)

lemma distinct_dict_del: "distinct (map fst d) \<Longrightarrow> distinct (map fst (dict_del k d))"
  by (simp add: dict_del_def distinct_map_filter)

lemma keys_dict_update: "fst ` set (dict_update a b) = fst ` set a \<union> fst ` set b"
  unfolding dict_update_def
proof (induction b arbitrary: a)
  case Nil
  show ?case by simp
next
  case (Cons kv b)
  show ?case by (simp add: Cons.IH keys_dict_set)
qed

lemma distinct_dict_update:
  "distinct (map fst a) \<Longrightarrow> distinct (map fst (dict_update a b))"
  unfolding dict_update_def
  by (induction b arbitrary: a) (simp_all add: distinct_dict_set)


subsection \<open>Reading\<close>

lemma read_loop_keys:
  "read_loop E doc acc = Inr d \<Longrightarrow>
   fst ` set d = fst ` set acc \<union> {uuid_str u |u k. k \<in> fst ` set doc \<and> UUID k = Inr u}"
proof (induction E doc acc rule: read_loop.induct)
  case (1 E result)
  then show ?case by simp
next
  case (2 E word_uuid word rest result)
  from "2.prems" obtain u where u: "UUID word_uuid = Inr u"
    by (cases "UUID word_uuid") auto
  with "2.prems" have
    "read_loop E rest (dict_set (uuid_str u) (convert_from_save_format E word) result) = Inr d"
    by simp
  from "2.IH" [OF u this] show ?case
    using u by (auto simp: keys_dict_set)
qed

lemma read_loop_distinct:
  "read_loop E doc acc = Inr d \<Longrightarrow> distinct (map fst acc) \<Longrightarrow> distinct (map fst d)"
proof (induction E doc acc rule: read_loop.induct)
  case (1 E result)
  then show ?case by simp
next
  case (2 E word_uuid word rest result)
  from "2.prems" obtain u where u: "UUID word_uuid = Inr u"
    by (cases "UUID word_uuid") auto
  with "2.prems" have
    "read_loop E rest (dict_set (uuid_str u) (convert_from_save_format E word) result) = Inr d"
    by simp
  from "2.IH" [OF u this] show ?case
    using "2.prems" by (simp add: distinct_dict_set)
qed

lemma read_dict_distinct: "read_dict E w = Inr d \<Longrightarrow> distinct (map fst d)"
  by (auto simp: read_dict_def split: option.splits stored.splits dest: read_loop_distinct)

lemma read_dict_keys:
  "read_dict E w = Inr d \<Longrightarrow> k \<in> fst ` set d \<Longrightarrow> \<exists>u. k = uuid_str u"
  by (auto simp: read_dict_def split: option.splits stored.splits dest!: read_loop_keys)

subsection \<open>The keys that \<^verbatim>\<open>read_dict\<close> returns\<close>

text \<open>
  C10. Every key of the dictionary that \<^verbatim>\<open>read_dict\<close> returns is a UUID in the
  canonical form, lowercase and hyphenated: the keys returned are the keys of the
  persisted document, each one parsed by \<^verbatim>\<open>UUID\<close> and printed by \<^verbatim>\<open>str\<close>, so a
  valid key in another form (uppercase, braced) comes back normalised and not verbatim.
\<close>

theorem read_dict_keys_canonical:
  assumes "read_dict E w = Inr d"
  shows "(\<forall>k \<in> fst ` set d. canonical_uuid k) \<and>
         (\<forall>doc. user_dict_file w = Some (JsonDoc doc) \<longrightarrow>
            fst ` set d = {uuid_str u |u k. k \<in> fst ` set doc \<and> UUID k = Inr u})"
proof (intro conjI ballI allI impI)
  fix k assume "k \<in> fst ` set d"
  with assms obtain u where "k = uuid_str u" using read_dict_keys by blast
  then show "canonical_uuid k" by (simp add: canonical_uuid_uuid_str)
next
  fix doc assume "user_dict_file w = Some (JsonDoc doc)"
  with assms have "read_loop E doc [] = Inr d" by (simp add: read_dict_def)
  from read_loop_keys [OF this]
  show "fst ` set d = {uuid_str u |u k. k \<in> fst ` set doc \<and> UUID k = Inr u}" by simp
qed

lemma UUID_example_upper:
  "UUID ''00000000-0000-0000-0000-0000000000AB'' = Inr 171"
  by (simp add: UUID_def strip_braces_def is_brace_def hex_val_def)

lemma UUID_example_braced:
  "UUID ''{00000000-0000-0000-0000-00000000000a}'' = Inr 10"
  by (simp add: UUID_def strip_braces_def is_brace_def hex_val_def)

lemma uuid_str_example_upper:
  "uuid_str 171 = ''00000000-0000-0000-0000-0000000000ab''"
  by code_simp

lemma uuid_str_10: "uuid_str 10 = ''00000000-0000-0000-0000-00000000000a''"
  by code_simp

lemma read_dict_noncanonical_world:
  "read_dict example_env noncanonical_world =
     Inr [(''00000000-0000-0000-0000-0000000000ab'',
           convert_from_save_format example_env
             (convert_to_save_format example_env (example_word ''a'' ''b'' 5))),
          (''00000000-0000-0000-0000-00000000000a'',
           convert_from_save_format example_env
             (convert_to_save_format example_env (example_word ''c'' ''d'' 5)))]"
  by (simp add: read_dict_def noncanonical_world_def UUID_example_upper UUID_example_braced
        uuid_str_example_upper uuid_str_10)

theorem read_dict_keys_canonical_witness:
  "read_dict example_env noncanonical_world =
     Inr [(''00000000-0000-0000-0000-0000000000ab'',
           convert_from_save_format example_env
             (convert_to_save_format example_env (example_word ''a'' ''b'' 5))),
          (''00000000-0000-0000-0000-00000000000a'',
           convert_from_save_format example_env
             (convert_to_save_format example_env (example_word ''c'' ''d'' 5)))]
   \<and> canonical_uuid ''00000000-0000-0000-0000-0000000000ab''
   \<and> canonical_uuid ''00000000-0000-0000-0000-00000000000a''
   \<and> \<not> canonical_uuid ''00000000-0000-0000-0000-0000000000AB''
   \<and> \<not> canonical_uuid ''{00000000-0000-0000-0000-00000000000a}''"
proof -
  note r = read_dict_noncanonical_world
  from read_dict_keys_canonical [OF r]
  have "canonical_uuid ''00000000-0000-0000-0000-0000000000ab''
        \<and> canonical_uuid ''00000000-0000-0000-0000-00000000000a''"
    by simp
  moreover have "\<not> canonical_uuid ''00000000-0000-0000-0000-0000000000AB''"
    by (simp add: canonical_uuid_def lower_hex_def)
  moreover have "\<not> canonical_uuid ''{00000000-0000-0000-0000-00000000000a}''"
    by (simp add: canonical_uuid_def lower_hex_def)
  ultimately show ?thesis using r by simp
qed

subsection \<open>The recompilation leaves the dictionary files alone\<close>

lemma read_dict_cong:
  "user_dict_file w = user_dict_file w' \<Longrightarrow> read_dict E w = read_dict E w'"
  by (simp add: read_dict_def)

lemma delete_file_on_close_frame:
  "user_dict_file (snd (delete_file_on_close E name w)) = user_dict_file w \<and>
   default_dict_file (snd (delete_file_on_close E name w)) = default_dict_file w \<and>
   tmp_csv_files (snd (delete_file_on_close E name w)) = tmp_csv_files w \<and>
   jtalk_user_dict (snd (delete_file_on_close E name w)) = jtalk_user_dict w \<and>
   warnings (snd (delete_file_on_close E name w)) = warnings w"
  by (simp add: delete_file_on_close_def Let_def)

lemma update_dict_finally_frame:
  "user_dict_file (snd (update_dict_finally E name w)) = user_dict_file w \<and>
   default_dict_file (snd (update_dict_finally E name w)) = default_dict_file w \<and>
   jtalk_user_dict (snd (update_dict_finally E name w)) = jtalk_user_dict w \<and>
   warnings (snd (update_dict_finally E name w)) = warnings w"
  by (simp add: update_dict_finally_def Let_def delete_file_on_close_frame)

lemma update_dict_finally_csv:
  "tmp_csv_files (snd (update_dict_finally E name w)) = (tmp_csv_files w)(name := None)"
  by (auto simp: update_dict_finally_def Let_def delete_file_on_close_frame fun_eq_iff)

lemma update_dict_finally_compiled:
  "\<not> win32 E \<Longrightarrow>
   tmp_compiled_files (snd (update_dict_finally E name w)) = (tmp_compiled_files w)(name := None)"
  by (auto simp: update_dict_finally_def Let_def delete_file_on_close_def fun_eq_iff)

lemma update_dict_finally_win32:
  "win32 E \<Longrightarrow>
   tmp_compiled_files (snd (update_dict_finally E name w)) = tmp_compiled_files w \<and>
   (tmp_compiled_files w name \<noteq> None \<longrightarrow>
      (if CreateFileW E name
       then name \<in> delete_on_close (snd (update_dict_finally E name w))
       else fst (update_dict_finally E name w) = Inl RuntimeError_CreateFileW))"
  by (auto simp: update_dict_finally_def Let_def delete_file_on_close_def)

lemma update_dict_finally_fresh:
  "tmp_compiled_files w name = None \<Longrightarrow>
   update_dict_finally E name w =
     (Inr (), w\<lparr>tmp_csv_files := (tmp_csv_files w)(name := None)\<rparr>)"
  by (auto simp: update_dict_finally_def Let_def fun_upd_idem)

lemma update_dict_try_frame:
  "user_dict_file (snd (update_dict_try E name w)) = user_dict_file w \<and>
   default_dict_file (snd (update_dict_try E name w)) = default_dict_file w"
  by (simp add: update_dict_try_def Let_def split: option.splits sum.splits compile_result.splits)

lemma update_dict_frame:
  "user_dict_file (snd (update_dict E r w)) = user_dict_file w \<and>
   default_dict_file (snd (update_dict E r w)) = default_dict_file w"
  by (simp add: update_dict_def Let_def case_prod_beta update_dict_finally_frame
        update_dict_try_frame split: sum.splits)

lemma update_dict_snd:
  "snd (update_dict E r w) =
     snd (update_dict_finally E (uuid_str r) (snd (update_dict_try E (uuid_str r) w)))"
  by (simp add: update_dict_def Let_def case_prod_beta split: sum.splits)

lemma update_dict_fst:
  "fst (update_dict E r w) =
     (case fst (update_dict_finally E (uuid_str r) (snd (update_dict_try E (uuid_str r) w))) of
        Inl e \<Rightarrow> Inl e
      | Inr _ \<Rightarrow> fst (update_dict_try E (uuid_str r) w))"
  by (simp add: update_dict_def Let_def case_prod_beta split: sum.splits)

subsection \<open>Cleanup of the temporary files\<close>

text \<open>
  C9. After every run of \<^verbatim>\<open>update_dict\<close>, whatever the outcome of the export, the
  compilation and the loading, the export file of the run does not exist; the compiled
  file of the run does not exist either where the platform is not Windows, and on
  Windows, if it exists, it has been opened with the delete-on-close flag (when
  \<^verbatim>\<open>CreateFileW\<close> fails, the run ends with the \<^verbatim>\<open>RuntimeError\<close> of line 107). The
  function always returns.
\<close>

theorem update_dict_cleanup:
  "tmp_csv_files (snd (update_dict E r w)) (uuid_str r) = None \<and>
   (\<not> win32 E \<longrightarrow> tmp_compiled_files (snd (update_dict E r w)) (uuid_str r) = None) \<and>
   (win32 E \<and> tmp_compiled_files (snd (update_dict E r w)) (uuid_str r) \<noteq> None \<longrightarrow>
      (if CreateFileW E (uuid_str r)
       then uuid_str r \<in> delete_on_close (snd (update_dict E r w))
       else fst (update_dict E r w) = Inl RuntimeError_CreateFileW))"
proof (intro conjI impI)
  show "tmp_csv_files (snd (update_dict E r w)) (uuid_str r) = None"
    by (simp add: update_dict_snd update_dict_finally_csv)
next
  assume "\<not> win32 E"
  then show "tmp_compiled_files (snd (update_dict E r w)) (uuid_str r) = None"
    by (simp add: update_dict_snd update_dict_finally_compiled)
next
  define w1 where "w1 = snd (update_dict_try E (uuid_str r) w)"
  assume a: "win32 E \<and> tmp_compiled_files (snd (update_dict E r w)) (uuid_str r) \<noteq> None"
  then have win: "win32 E" by simp
  from a have ex: "tmp_compiled_files w1 (uuid_str r) \<noteq> None"
    using update_dict_finally_win32 [OF win, of "uuid_str r" w1]
    by (simp add: update_dict_snd w1_def)
  from update_dict_finally_win32 [OF win, of "uuid_str r" w1] ex
  have "if CreateFileW E (uuid_str r)
        then uuid_str r \<in> delete_on_close (snd (update_dict_finally E (uuid_str r) w1))
        else fst (update_dict_finally E (uuid_str r) w1) = Inl RuntimeError_CreateFileW"
    by blast
  then show "if CreateFileW E (uuid_str r)
       then uuid_str r \<in> delete_on_close (snd (update_dict E r w))
       else fst (update_dict E r w) = Inl RuntimeError_CreateFileW"
    by (simp add: update_dict_snd update_dict_fst w1_def split: if_splits)
qed

lemma rstrip_example: "rstrip ''tokyo,1348,1348,8600,noun'' = ''tokyo,1348,1348,8600,noun''"
  by (simp add: rstrip_def is_space_def)

lemma read_dict_example_world: "read_dict E example_world = Inr []"
  by (simp add: read_dict_def example_world_def)

lemma example_world_fields:
  "default_dict_file example_world = Some ''tokyo,1348,1348,8600,noun''"
  "user_dict_file example_world = None"
  "tmp_csv_files example_world = Map.empty"
  "tmp_compiled_files example_world = Map.empty"
  "delete_on_close example_world = {}"
  "jtalk_user_dict example_world = None"
  "warnings example_world = []"
  by (simp_all add: example_world_def)

lemma example_env_fields:
  "win32 example_env = False"
  "mecab_dict_index example_env csv = Artifact csv"
  "update_global_jtalk_with_user_dict example_env i = True"
  "CreateFileW example_env n = True"
  "CloseHandle example_env n = True"
  "part_of_speech_data example_env = [example_row]"
  "priority2cost example_env c p = 8600 - 100 * p"
  "cost2priority example_env c x = (8600 - x) div 100"
  "create_word example_env (s, pr, prio) =
     (if 0 \<le> prio \<and> prio \<le> 10 then Inr (example_word s pr prio) else Inl UserDictInputError)"
  by (simp_all add: example_env_def)

lemma example_env_win32_fields:
  "win32 example_env_win32 = True"
  "mecab_dict_index example_env_win32 csv = Artifact csv"
  "update_global_jtalk_with_user_dict example_env_win32 i = True"
  "CreateFileW example_env_win32 n = True"
  "CloseHandle example_env_win32 n = True"
  "create_word example_env_win32 = create_word example_env"
  "priority2cost example_env_win32 = priority2cost example_env"
  "cost2priority example_env_win32 = cost2priority example_env"
  by (simp_all add: example_env_win32_def example_env_def)

lemma update_dict_try_example:
  "\<not> tmp_compiled_files (snd (update_dict_try example_env name example_world)) name = None \<and>
   fst (update_dict_try example_env name example_world) = Inr () \<and>
   jtalk_user_dict (snd (update_dict_try example_env name example_world)) \<noteq> None"
  by (simp add: update_dict_try_def read_dict_example_world rstrip_example Let_def
        example_world_fields example_env_fields)

lemma update_dict_try_example_win32:
  "\<not> tmp_compiled_files (snd (update_dict_try example_env_win32 name example_world)) name = None \<and>
   fst (update_dict_try example_env_win32 name example_world) = Inr ()"
  by (simp add: update_dict_try_def read_dict_example_world rstrip_example Let_def
        example_world_fields example_env_win32_fields)

theorem update_dict_cleanup_witness:
  "fst (update_dict example_env 2 example_world) = Inr ()
   \<and> jtalk_user_dict (snd (update_dict example_env 2 example_world)) \<noteq> None
   \<and> tmp_csv_files (snd (update_dict example_env 2 example_world)) (uuid_str 2) = None
   \<and> tmp_compiled_files (snd (update_dict example_env 2 example_world)) (uuid_str 2) = None
   \<and> tmp_csv_files (snd (update_dict example_env_win32 2 example_world)) (uuid_str 2) = None
   \<and> tmp_compiled_files (snd (update_dict example_env_win32 2 example_world)) (uuid_str 2) \<noteq> None
   \<and> uuid_str 2 \<in> delete_on_close (snd (update_dict example_env_win32 2 example_world))"
proof -
  have posix: "\<not> win32 example_env" by (simp add: example_env_fields)
  have win: "win32 example_env_win32" "CreateFileW example_env_win32 (uuid_str 2)"
    by (simp_all add: example_env_win32_fields)
  have ok: "fst (update_dict example_env 2 example_world) = Inr ()"
    using update_dict_try_example [of "uuid_str 2"] posix
    by (simp add: update_dict_fst update_dict_finally_def Let_def delete_file_on_close_def)
  have loaded: "jtalk_user_dict (snd (update_dict example_env 2 example_world)) \<noteq> None"
    using update_dict_try_example [of "uuid_str 2"]
    by (simp add: update_dict_snd update_dict_finally_frame)
  have there: "tmp_compiled_files (snd (update_dict example_env_win32 2 example_world)) (uuid_str 2) \<noteq> None"
    using update_dict_try_example_win32 [of "uuid_str 2"] update_dict_finally_win32 [OF win(1)]
    by (simp add: update_dict_snd)
  from update_dict_cleanup [of example_env 2 example_world]
       update_dict_cleanup [of example_env_win32 2 example_world]
  show ?thesis using posix win ok loaded there by simp
qed

subsection \<open>A missing default dictionary\<close>

lemma write_to_json_fields:
  "user_dict_file (write_to_json E d w) = Some (JsonDoc (save_loop E d []))"
  "default_dict_file (write_to_json E d w) = default_dict_file w"
  "tmp_csv_files (write_to_json E d w) = tmp_csv_files w"
  "tmp_compiled_files (write_to_json E d w) = tmp_compiled_files w"
  "delete_on_close (write_to_json E d w) = delete_on_close w"
  "jtalk_user_dict (write_to_json E d w) = jtalk_user_dict w"
  "warnings (write_to_json E d w) = warnings w"
  by (simp_all add: write_to_json_def write_bytes_def write_data_def open_wb_def)

lemma update_dict_try_no_default:
  "default_dict_file w = None \<Longrightarrow>
   update_dict_try E name w =
     (Inr (), w\<lparr>warnings := warnings w @ [''Cannot find default dictionary.'']\<rparr>)"
  by (simp add: update_dict_try_def)

lemma update_dict_no_default:
  "default_dict_file w = None \<Longrightarrow> tmp_compiled_files w (uuid_str r) = None \<Longrightarrow>
   update_dict E r w =
     (Inr (), w\<lparr>warnings := warnings w @ [''Cannot find default dictionary.''],
                tmp_csv_files := (tmp_csv_files w)(uuid_str r := None)\<rparr>)"
  by (simp add: update_dict_def update_dict_try_no_default update_dict_finally_fresh)

lemma apply_word_no_default:
  assumes "default_dict_file w = None" and "tmp_compiled_files w (uuid_str r) = None"
  shows "fst (apply_word E p u r w) =
     (case read_dict E w of
        Inl e \<Rightarrow> Inl e
      | Inr d \<Rightarrow> (case create_word E p of Inl e \<Rightarrow> Inl e | Inr word \<Rightarrow> Inr (uuid_str u)))"
  using assms
  by (simp add: apply_word_def Let_def update_dict_no_default write_to_json_fields
        split: sum.splits)

lemma no_default_world_fields:
  "default_dict_file no_default_world = None"
  "user_dict_file no_default_world = None"
  "tmp_compiled_files no_default_world = Map.empty"
  "tmp_csv_files no_default_world = Map.empty"
  "warnings no_default_world = []"
  by (simp_all add: no_default_world_def example_world_def)

lemma read_dict_no_default_world: "read_dict E no_default_world = Inr []"
  by (simp add: read_dict_def no_default_world_fields)

lemma uuid_str_1: "uuid_str 1 = ''00000000-0000-0000-0000-000000000001''"
  by code_simp

lemma uuid_str_Suc_0: "uuid_str (Suc 0) = ''00000000-0000-0000-0000-000000000001''"
  using uuid_str_1 by simp

subsection \<open>Writing and reading back\<close>

lemma hex_pad_mod: "hex_pad k (n mod 16 ^ k) = hex_pad k n"
proof (induction k arbitrary: n)
  case 0
  show ?case by simp
next
  case (Suc k)
  have m: "n mod (16 * 16 ^ k) = 16 * (n div 16 mod 16 ^ k) + n mod 16"
    by (rule mod_mult2_eq)
  have "(n mod (16 * 16 ^ k)) div 16 = n div 16 mod 16 ^ k" by (simp add: m)
  moreover have "(n mod (16 * 16 ^ k)) mod 16 = n mod 16" by (simp add: m)
  ultimately show ?case using Suc [of "n div 16"] by simp
qed

lemma uuid_str_mod: "uuid_str (n mod 16 ^ 32) = uuid_str n"
  by (simp only: uuid_str_def hex_pad_mod)

lemma uuid_str_inj: "uuid_str a = uuid_str b \<Longrightarrow> a mod 16 ^ 32 = b mod 16 ^ 32"
  using UUID_uuid_str [of a] UUID_uuid_str [of b] by simp

lemma convert_roundtrip:
  "cost2priority E (context_id word) (priority2cost E (context_id word) (priority word))
     = priority word
   \<Longrightarrow> convert_from_save_format E (convert_to_save_format E word) = word"
  by (simp add: convert_from_save_format_def convert_to_save_format_def)

lemma save_loop_append:
  "distinct (map fst d) \<Longrightarrow> fst ` set d \<inter> fst ` set acc = {} \<Longrightarrow>
   save_loop E d acc = acc @ map (\<lambda>kv. (fst kv, convert_to_save_format E (snd kv))) d"
proof (induction E d acc rule: save_loop.induct)
  case (1 E acc)
  show ?case by simp
next
  case (2 E word_uuid word rest acc)
  from "2.prems" have new: "word_uuid \<notin> fst ` set acc" by auto
  have d: "distinct (map fst rest)" using "2.prems" by simp
  have "fst ` set rest \<inter> fst ` set (dict_set word_uuid (convert_to_save_format E word) acc) = {}"
    using "2.prems" by (auto simp: keys_dict_set)
  from "2.IH" [OF d this] show ?case by (simp add: dict_set_new [OF new])
qed

lemma save_loop_distinct:
  "distinct (map fst d) \<Longrightarrow>
   save_loop E d [] = map (\<lambda>kv. (fst kv, convert_to_save_format E (snd kv))) d"
  using save_loop_append [of d "[]" E] by simp

lemma read_loop_append:
  "distinct (map fst sd) \<Longrightarrow> fst ` set sd \<inter> fst ` set acc = {} \<Longrightarrow>
   (\<And>k. k \<in> fst ` set sd \<Longrightarrow> \<exists>u. k = uuid_str u) \<Longrightarrow>
   read_loop E sd acc = Inr (acc @ map (\<lambda>kv. (fst kv, convert_from_save_format E (snd kv))) sd)"
proof (induction E sd acc rule: read_loop.induct)
  case (1 E acc)
  show ?case by simp
next
  case (2 E word_uuid word rest acc)
  from "2.prems"(3) [of word_uuid] obtain u where u: "word_uuid = uuid_str u" by auto
  define n where "n = u mod 16 ^ 32"
  have U: "UUID word_uuid = Inr n" unfolding n_def by (simp only: u UUID_uuid_str)
  have s: "uuid_str n = word_uuid" unfolding n_def by (simp only: u uuid_str_mod)
  from "2.prems" have new: "word_uuid \<notin> fst ` set acc" by auto
  have d: "distinct (map fst rest)" using "2.prems" by simp
  have dis: "fst ` set rest \<inter>
        fst ` set (dict_set (uuid_str n) (convert_from_save_format E word) acc) = {}"
    using "2.prems"(1,2) by (auto simp: keys_dict_set s)
  have k: "\<And>k. k \<in> fst ` set rest \<Longrightarrow> \<exists>u. k = uuid_str u"
    using "2.prems"(3) by auto
  from "2.IH" [OF U d dis k] show ?case
    by (simp add: U s dict_set_new [OF new])
qed

lemma read_after_write:
  assumes "distinct (map fst d)" and "\<And>k. k \<in> fst ` set d \<Longrightarrow> \<exists>u. k = uuid_str u"
  shows "read_dict E (write_to_json E d w)
         = Inr (map (\<lambda>kv. (fst kv, convert_from_save_format E (convert_to_save_format E (snd kv)))) d)"
proof -
  let ?sd = "map (\<lambda>kv. (fst kv, convert_to_save_format E (snd kv))) d"
  have m: "map fst ?sd = map fst d" by (simp add: comp_def)
  have "read_loop E ?sd [] = Inr ([] @ map (\<lambda>kv. (fst kv, convert_from_save_format E (snd kv))) ?sd)"
  proof (rule read_loop_append)
    show "distinct (map fst ?sd)" using assms(1) by (simp only: m)
    show "fst ` set ?sd \<inter> fst ` set [] = {}" by simp
    fix k assume "k \<in> fst ` set ?sd"
    then have "k \<in> fst ` set d" by force
    then show "\<exists>u. k = uuid_str u" by (rule assms(2))
  qed
  then show ?thesis
    by (simp add: read_dict_def write_to_json_fields save_loop_distinct [OF assms(1)] comp_def)
qed

lemma read_after_write_inverse:
  assumes "distinct (map fst d)" and "\<And>k. k \<in> fst ` set d \<Longrightarrow> \<exists>u. k = uuid_str u"
    and "codec_inverse_on E d"
  shows "read_dict E (write_to_json E d w) = Inr d"
proof -
  have "map (\<lambda>kv. (fst kv, convert_from_save_format E (convert_to_save_format E (snd kv)))) d
        = map (\<lambda>kv. kv) d"
    using assms(3) unfolding codec_inverse_on_def list_all_iff
    by (intro map_cong refl) (simp add: convert_roundtrip)
  then show ?thesis using read_after_write [OF assms(1,2), of E w] by simp
qed

lemma read_dict_one_word:
  "read_dict example_env (write_to_json example_env [(uuid_str u, example_word s p 5)] w)
     = Inr [(uuid_str u, example_word s p 5)]"
  by (rule read_after_write_inverse)
     (auto simp: codec_inverse_on_def example_env_fields example_word_def)

subsection \<open>Rewriting and deleting\<close>

lemma read_dict_dict_del_keys:
  "read_dict E w = Inr d \<Longrightarrow> k' \<in> fst ` set (dict_del k d) \<Longrightarrow> \<exists>u. k' = uuid_str u"
  using read_dict_keys [of E w d k'] by (simp add: keys_dict_del)

lemma codec_inverse_on_dict_del: "codec_inverse_on E d \<Longrightarrow> codec_inverse_on E (dict_del k d)"
  by (simp add: codec_inverse_on_def dict_del_def list_all_iff)

lemma delete_word_snd:
  "read_dict E w = Inr d \<Longrightarrow> dict_contains k d \<Longrightarrow>
   snd (delete_word E k r w) = snd (update_dict E r (write_to_json E (dict_del k d) w))"
  by (simp add: delete_word_def)

lemma read_dict_update_dict: "read_dict E (snd (update_dict E' r w)) = read_dict E w"
  by (rule read_dict_cong) (simp add: update_dict_frame)

text \<open>
  C6. For an id that is not a key of the dictionary that \<^verbatim>\<open>read_dict\<close> returns,
  \<^verbatim>\<open>rewrite_word\<close> and \<^verbatim>\<open>delete_word\<close> raise \<^verbatim>\<open>UserDictInputError\<close> and leave every
  file as it was: nothing is written and nothing recompiled. For an id that is a key,
  \<^verbatim>\<open>delete_word\<close> persists the dictionary without that key and with every other entry
  as it was: reading the store afterwards returns it (the cost conversion being its own
  inverse on the words of the dictionary).
\<close>

theorem rewrite_delete_absent_present:
  assumes "read_dict E w = Inr d"
  shows "(\<not> dict_contains k d \<longrightarrow>
            rewrite_word E k p r w = (Inl UserDictInputError, w)
            \<and> delete_word E k r w = (Inl UserDictInputError, w))
       \<and> (dict_contains k d \<and> codec_inverse_on E d \<longrightarrow>
            read_dict E (snd (delete_word E k r w)) = Inr (dict_del k d)
            \<and> map_of (dict_del k d) = (map_of d)(k := None)
            \<and> fst ` set (dict_del k d) = fst ` set d - {k})"
proof (intro conjI impI)
  assume "\<not> dict_contains k d"
  then show "rewrite_word E k p r w = (Inl UserDictInputError, w)"
    and "delete_word E k r w = (Inl UserDictInputError, w)"
    using assms by (simp_all add: rewrite_word_def delete_word_def)
next
  assume a: "dict_contains k d \<and> codec_inverse_on E d"
  have dist: "distinct (map fst (dict_del k d))"
    using read_dict_distinct [OF assms] by (rule distinct_dict_del)
  have "read_dict E (write_to_json E (dict_del k d) w) = Inr (dict_del k d)"
    using dist read_dict_dict_del_keys [OF assms] a
    by (intro read_after_write_inverse codec_inverse_on_dict_del) auto
  then show "read_dict E (snd (delete_word E k r w)) = Inr (dict_del k d)"
    using a by (simp add: delete_word_snd [OF assms] read_dict_update_dict)
next
  show "map_of (dict_del k d) = (map_of d)(k := None)" by (rule map_of_dict_del)
  show "fst ` set (dict_del k d) = fst ` set d - {k}" by (rule keys_dict_del)
qed

lemma uuid_str_neq: "a mod 16 ^ 32 \<noteq> b mod 16 ^ 32 \<Longrightarrow> uuid_str a \<noteq> uuid_str b"
  using uuid_str_inj by blast

lemma uuid_str_example_neq:
  "uuid_str 10 \<noteq> uuid_str 11" "uuid_str 11 \<noteq> uuid_str 10"
  "uuid_str 12 \<noteq> uuid_str 10" "uuid_str 12 \<noteq> uuid_str 11"
  "uuid_str 10 \<noteq> uuid_str 12" "uuid_str 11 \<noteq> uuid_str 12"
  by (rule uuid_str_neq, simp)+

lemma example_roundtrip:
  "convert_from_save_format example_env (convert_to_save_format example_env (example_word s p 5))
     = example_word s p 5"
  "convert_from_save_format example_env (convert_to_save_format example_env (example_word s p 6))
     = example_word s p 6"
  by (rule convert_roundtrip, simp add: example_env_fields example_word_def)+

lemma UUID_example_keys: "UUID (uuid_str 10) = Inr 10" "UUID (uuid_str 11) = Inr 11"
  by (simp_all add: UUID_uuid_str)

lemma read_dict_two_word_world:
  "read_dict example_env two_word_world =
     Inr [(uuid_str 10, example_word ''c'' ''d'' 5), (uuid_str 11, example_word ''e'' ''f'' 6)]"
  by (simp add: read_dict_def two_word_world_def UUID_example_keys example_roundtrip
        uuid_str_example_neq)

theorem rewrite_delete_absent_present_witness:
  "read_dict example_env two_word_world =
     Inr [(uuid_str 10, example_word ''c'' ''d'' 5), (uuid_str 11, example_word ''e'' ''f'' 6)]
   \<and> rewrite_word example_env (uuid_str 12) (''a'', ''b'', 5) 2 two_word_world
       = (Inl UserDictInputError, two_word_world)
   \<and> delete_word example_env (uuid_str 12) 2 two_word_world
       = (Inl UserDictInputError, two_word_world)
   \<and> read_dict example_env (snd (delete_word example_env (uuid_str 10) 2 two_word_world))
       = Inr [(uuid_str 11, example_word ''e'' ''f'' 6)]"
proof -
  note r = read_dict_two_word_world
  have c: "codec_inverse_on example_env
             [(uuid_str 10, example_word ''c'' ''d'' 5), (uuid_str 11, example_word ''e'' ''f'' 6)]"
    by (simp add: codec_inverse_on_def example_env_fields example_word_def)
  from rewrite_delete_absent_present [OF r, of "uuid_str 12" "(''a'', ''b'', 5)" 2]
       rewrite_delete_absent_present [OF r, of "uuid_str 10" "(''a'', ''b'', 5)" 2]
  show ?thesis
    using r c by (simp add: dict_contains_def dict_del_def uuid_str_example_neq)
qed

subsection \<open>Edits without a default dictionary\<close>

lemma write_to_json_eq:
  "write_to_json E d w = w\<lparr>user_dict_file := Some (JsonDoc (save_loop E d []))\<rparr>"
  by (simp add: write_to_json_def write_bytes_def write_data_def open_wb_def)

lemma update_dict_after_write_no_default:
  assumes "default_dict_file w = None" and "tmp_compiled_files w (uuid_str r) = None"
  shows "update_dict E r (write_to_json E d w) =
           (Inr (), w\<lparr>user_dict_file := Some (JsonDoc (save_loop E d [])),
                      warnings := warnings w @ [''Cannot find default dictionary.''],
                      tmp_csv_files := (tmp_csv_files w)(uuid_str r := None)\<rparr>)"
  using assms by (simp add: update_dict_no_default write_to_json_fields write_to_json_eq)

text \<open>
  C3, as claimed, fails: with the default dictionary file absent, \<^verbatim>\<open>apply_word\<close> returns
  the new UUID and raises nothing; \<^verbatim>\<open>update_dict\<close> takes no argument that tells an edit
  from a refresh.
\<close>

theorem missing_default_edit_counterexample:
  "default_dict_file no_default_world = None
   \<and> fst (apply_word example_env (''a'', ''b'', 5) 1 2 no_default_world)
       = Inr ''00000000-0000-0000-0000-000000000001''"
  using apply_word_no_default [of no_default_world 2 example_env "(''a'', ''b'', 5)" 1]
  by (simp add: no_default_world_fields read_dict_no_default_world example_env_fields
        uuid_str_Suc_0)

text \<open>
  C3, amended. When the default dictionary file is absent, every run of \<^verbatim>\<open>update_dict\<close>,
  whether an edit (\<^verbatim>\<open>apply_word\<close>, \<^verbatim>\<open>rewrite_word\<close>, \<^verbatim>\<open>delete_word\<close>,
  \<^verbatim>\<open>import_user_dict\<close>) or a refresh called it, passes the warning to
  \<^verbatim>\<open>warnings.warn\<close> and returns without an error. An edit therefore fails only with what
  its own steps before the recompilation raise, and then leaves every file as it was;
  otherwise it returns, having written the edited dictionary to the user dictionary file
  and issued the warning. (The temporary file names of the run are new.)
\<close>

theorem missing_default_dict_tolerated:
  assumes "default_dict_file w = None" and "tmp_compiled_files w (uuid_str r) = None"
  shows "update_dict E r w =
           (Inr (), w\<lparr>warnings := warnings w @ [''Cannot find default dictionary.''],
                      tmp_csv_files := (tmp_csv_files w)(uuid_str r := None)\<rparr>)
    \<and> apply_word E p u r w =
         (case read_dict E w of
            Inl e \<Rightarrow> (Inl e, w)
          | Inr d \<Rightarrow>
              (case create_word E p of
                 Inl e \<Rightarrow> (Inl e, w)
               | Inr word \<Rightarrow>
                   (Inr (uuid_str u),
                    w\<lparr>user_dict_file :=
                        Some (JsonDoc (save_loop E (dict_set (uuid_str u) word d) [])),
                      warnings := warnings w @ [''Cannot find default dictionary.''],
                      tmp_csv_files := (tmp_csv_files w)(uuid_str r := None)\<rparr>)))
    \<and> rewrite_word E k p r w =
         (case read_dict E w of
            Inl e \<Rightarrow> (Inl e, w)
          | Inr d \<Rightarrow>
              if \<not> dict_contains k d then (Inl UserDictInputError, w)
              else (case create_word E p of
                      Inl e \<Rightarrow> (Inl e, w)
                    | Inr word \<Rightarrow>
                        (Inr (),
                         w\<lparr>user_dict_file := Some (JsonDoc (save_loop E (dict_set k word d) [])),
                           warnings := warnings w @ [''Cannot find default dictionary.''],
                           tmp_csv_files := (tmp_csv_files w)(uuid_str r := None)\<rparr>)))
    \<and> delete_word E k r w =
         (case read_dict E w of
            Inl e \<Rightarrow> (Inl e, w)
          | Inr d \<Rightarrow>
              if \<not> dict_contains k d then (Inl UserDictInputError, w)
              else (Inr (),
                    w\<lparr>user_dict_file := Some (JsonDoc (save_loop E (dict_del k d) [])),
                      warnings := warnings w @ [''Cannot find default dictionary.''],
                      tmp_csv_files := (tmp_csv_files w)(uuid_str r := None)\<rparr>))
    \<and> import_user_dict E data override r w =
         (case validate_import E data of
            Inl e \<Rightarrow> (Inl e, w)
          | Inr _ \<Rightarrow>
              (case read_dict E w of
                 Inl e \<Rightarrow> (Inl e, w)
               | Inr d \<Rightarrow>
                   (Inr (),
                    w\<lparr>user_dict_file :=
                        Some (JsonDoc (save_loop E
                          (if override then dict_update d data else dict_update data d) [])),
                      warnings := warnings w @ [''Cannot find default dictionary.''],
                      tmp_csv_files := (tmp_csv_files w)(uuid_str r := None)\<rparr>)))"
proof (intro conjI)
  show "update_dict E r w =
           (Inr (), w\<lparr>warnings := warnings w @ [''Cannot find default dictionary.''],
                      tmp_csv_files := (tmp_csv_files w)(uuid_str r := None)\<rparr>)"
    using assms by (rule update_dict_no_default)
qed (simp_all add: apply_word_def rewrite_word_def delete_word_def import_user_dict_def Let_def
       update_dict_after_write_no_default [OF assms] split: sum.splits)

theorem missing_default_dict_tolerated_witness:
  "default_dict_file no_default_world = None
   \<and> tmp_compiled_files no_default_world (uuid_str 2) = None
   \<and> fst (update_dict example_env 2 no_default_world) = Inr ()
   \<and> warnings (snd (update_dict example_env 2 no_default_world))
       = [''Cannot find default dictionary.'']
   \<and> fst (apply_word example_env (''a'', ''b'', 5) 3 2 no_default_world) = Inr (uuid_str 3)
   \<and> user_dict_file (snd (apply_word example_env (''a'', ''b'', 5) 3 2 no_default_world))
       = Some (JsonDoc [(uuid_str 3,
                         convert_to_save_format example_env (example_word ''a'' ''b'' 5))])
   \<and> warnings (snd (apply_word example_env (''a'', ''b'', 5) 3 2 no_default_world))
       = [''Cannot find default dictionary.'']
   \<and> read_dict example_env (snd (apply_word example_env (''a'', ''b'', 5) 3 2 no_default_world))
       = Inr [(uuid_str 3, example_word ''a'' ''b'' 5)]
   \<and> delete_word example_env (uuid_str 3) 2 no_default_world
       = (Inl UserDictInputError, no_default_world)
   \<and> fst (import_user_dict example_env [] False 2 no_default_world) = Inr ()"
proof -
  have a: "default_dict_file no_default_world = None"
    and b: "tmp_compiled_files no_default_world (uuid_str 2) = None"
    by (simp_all add: no_default_world_fields)
  have rt: "read_dict example_env w = Inr [(uuid_str 3, example_word ''a'' ''b'' 5)]"
    if "user_dict_file w = Some (JsonDoc [(uuid_str 3,
          convert_to_save_format example_env (example_word ''a'' ''b'' 5))])" for w :: world
    using read_dict_one_word [of 3 "''a''" "''b''" w] that
    by (simp add: write_to_json_eq read_dict_def)
  from missing_default_dict_tolerated
         [OF a b, of example_env "(''a'', ''b'', 5)" 3 "uuid_str 3" "[]" False]
  show ?thesis
    by (simp add: a b read_dict_no_default_world example_env_fields dict_contains_def
          no_default_world_fields rt)
qed

subsection \<open>A failing compilation\<close>

lemma update_dict_try_compile_failure:
  assumes "default_dict_file w = Some base"
    and "tmp_compiled_files w name = None"
    and "\<And>csv. mecab_dict_index E csv = CompileRaises \<or> mecab_dict_index E csv = NoArtifact"
    and "read_dict E w = Inr d"
  shows "is_compilation_error (fst (update_dict_try E name w))"
    and "jtalk_user_dict (snd (update_dict_try E name w)) = jtalk_user_dict w"
    and "tmp_compiled_files (snd (update_dict_try E name w)) name = None"
proof -
  define csv where "csv = csv_loop E d
      ([] @ (if base = rstrip base then base @ [CHR 0x0A] else base))"
  from assms(3) [of csv] show "is_compilation_error (fst (update_dict_try E name w))"
    using assms(1,2,4)
    by (auto simp: update_dict_try_def Let_def csv_def is_compilation_error_def)
  from assms(3) [of csv]
  show "jtalk_user_dict (snd (update_dict_try E name w)) = jtalk_user_dict w"
    using assms(1,2,4) by (auto simp: update_dict_try_def Let_def csv_def)
  from assms(3) [of csv]
  show "tmp_compiled_files (snd (update_dict_try E name w)) name = None"
    using assms(1,2,4) by (auto simp: update_dict_try_def Let_def csv_def)
qed

lemma update_dict_compile_failure:
  assumes "default_dict_file w = Some base"
    and "tmp_compiled_files w (uuid_str r) = None"
    and "\<And>csv. mecab_dict_index E csv = CompileRaises \<or> mecab_dict_index E csv = NoArtifact"
    and "read_dict E w = Inr d"
  shows "is_compilation_error (fst (update_dict E r w))"
    and "jtalk_user_dict (snd (update_dict E r w)) = jtalk_user_dict w"
proof -
  note t = update_dict_try_compile_failure [OF assms]
  show "is_compilation_error (fst (update_dict E r w))"
    using t(1) by (simp add: update_dict_fst update_dict_finally_fresh [OF t(3)])
  show "jtalk_user_dict (snd (update_dict E r w)) = jtalk_user_dict w"
    using t(2) by (simp add: update_dict_snd update_dict_finally_frame)
qed

lemma write_then_update_compile_failure:
  assumes "default_dict_file w = Some base"
    and "tmp_compiled_files w (uuid_str r) = None"
    and "\<And>csv. mecab_dict_index E csv = CompileRaises \<or> mecab_dict_index E csv = NoArtifact"
    and "read_dict E (write_to_json E new w) = Inr new"
  shows "is_compilation_error (fst (update_dict E r (write_to_json E new w)))"
    and "read_dict E (snd (update_dict E r (write_to_json E new w))) = Inr new"
    and "jtalk_user_dict (snd (update_dict E r (write_to_json E new w))) = jtalk_user_dict w"
proof -
  have a: "default_dict_file (write_to_json E new w) = Some base"
    and b: "tmp_compiled_files (write_to_json E new w) (uuid_str r) = None"
    using assms(1,2) by (simp_all add: write_to_json_fields)
  note u = update_dict_compile_failure [OF a b assms(3,4)]
  show "is_compilation_error (fst (update_dict E r (write_to_json E new w)))" by (rule u(1))
  show "read_dict E (snd (update_dict E r (write_to_json E new w))) = Inr new"
    by (simp add: read_dict_update_dict assms(4))
  show "jtalk_user_dict (snd (update_dict E r (write_to_json E new w))) = jtalk_user_dict w"
    using u(2) by (simp add: write_to_json_fields)
qed

lemma dict_set_keys_uuid:
  "(\<And>k'. k' \<in> fst ` set d \<Longrightarrow> \<exists>u. k' = uuid_str u) \<Longrightarrow> \<exists>u. k = uuid_str u \<Longrightarrow>
   k' \<in> fst ` set (dict_set k v d) \<Longrightarrow> \<exists>u. k' = uuid_str u"
  by (auto simp: keys_dict_set)

lemma read_after_write_dict_set:
  assumes "read_dict E w = Inr d" and "\<exists>u. k = uuid_str u"
    and "codec_inverse_on E (dict_set k word d)"
  shows "read_dict E (write_to_json E (dict_set k word d) w') = Inr (dict_set k word d)"
proof (rule read_after_write_inverse)
  show "distinct (map fst (dict_set k word d))"
    using read_dict_distinct [OF assms(1)] by (rule distinct_dict_set)
  show "codec_inverse_on E (dict_set k word d)" by (rule assms(3))
  fix k' assume "k' \<in> fst ` set (dict_set k word d)"
  then show "\<exists>u. k' = uuid_str u"
    using read_dict_keys [OF assms(1)] assms(2) by (auto simp: keys_dict_set)
qed

lemma read_after_write_dict_del:
  assumes "read_dict E w = Inr d" and "codec_inverse_on E d"
  shows "read_dict E (write_to_json E (dict_del k d) w') = Inr (dict_del k d)"
proof (rule read_after_write_inverse)
  show "distinct (map fst (dict_del k d))"
    using read_dict_distinct [OF assms(1)] by (rule distinct_dict_del)
  show "codec_inverse_on E (dict_del k d)"
    using assms(2) by (rule codec_inverse_on_dict_del)
  fix k' assume "k' \<in> fst ` set (dict_del k d)"
  then show "\<exists>u. k' = uuid_str u" by (rule read_dict_dict_del_keys [OF assms(1)])
qed

lemma read_dict_env_cong:
  "cost2priority E = cost2priority E' \<Longrightarrow> read_dict E w = read_dict E' w"
proof -
  assume c: "cost2priority E = cost2priority E'"
  then have f: "convert_from_save_format E = convert_from_save_format E'"
    by (simp add: fun_eq_iff convert_from_save_format_def)
  have "read_loop E sd acc = read_loop E' sd acc" for sd acc
    by (induction sd arbitrary: acc) (auto simp: f split: sum.splits)
  then show ?thesis by (simp add: read_dict_def split: option.splits stored.splits)
qed

text \<open>
  C7. Every mutating operation writes the new dictionary before it calls
  \<^verbatim>\<open>update_dict\<close>. When the compiler raises or leaves no compiled file, \<^verbatim>\<open>update_dict\<close>
  and with it the operation fails with a compilation error, the analyzer keeps the
  dictionary it had, and reading the store afterwards returns the dictionary with the
  edit: the word added under the new id, the word replaced, the entry deleted, the
  batch merged. (The base dictionary is present, the temporary file names of the run
  are new, and the cost conversion is its own inverse on the words concerned.)
\<close>

theorem compile_failure_keeps_edit:
  assumes "default_dict_file w = Some base"
    and "tmp_compiled_files w (uuid_str r) = None"
    and "\<And>csv. mecab_dict_index E csv = CompileRaises \<or> mecab_dict_index E csv = NoArtifact"
    and "read_dict E w = Inr d"
  shows "(create_word E p = Inr word \<and> codec_inverse_on E (dict_set (uuid_str u) word d) \<longrightarrow>
            is_compilation_error (fst (apply_word E p u r w))
            \<and> read_dict E (snd (apply_word E p u r w)) = Inr (dict_set (uuid_str u) word d)
            \<and> jtalk_user_dict (snd (apply_word E p u r w)) = jtalk_user_dict w)
       \<and> (dict_contains k d \<and> create_word E p = Inr word
            \<and> codec_inverse_on E (dict_set k word d) \<longrightarrow>
            is_compilation_error (fst (rewrite_word E k p r w))
            \<and> read_dict E (snd (rewrite_word E k p r w)) = Inr (dict_set k word d))
       \<and> (dict_contains k d \<and> codec_inverse_on E d \<longrightarrow>
            is_compilation_error (fst (delete_word E k r w))
            \<and> read_dict E (snd (delete_word E k r w)) = Inr (dict_del k d))
       \<and> (validate_import E data = Inr () \<and> distinct (map fst data)
            \<and> (\<forall>k \<in> fst ` set data. \<exists>n. k = uuid_str n)
            \<and> codec_inverse_on E (if override then dict_update d data else dict_update data d)
            \<longrightarrow>
            is_compilation_error (fst (import_user_dict E data override r w))
            \<and> read_dict E (snd (import_user_dict E data override r w))
                = Inr (if override then dict_update d data else dict_update data d))"
proof (intro conjI impI)
  assume a: "create_word E p = Inr word \<and> codec_inverse_on E (dict_set (uuid_str u) word d)"
  have rw: "read_dict E (write_to_json E (dict_set (uuid_str u) word d) w)
            = Inr (dict_set (uuid_str u) word d)"
    using a by (intro read_after_write_dict_set [OF assms(4)]) auto
  note x = write_then_update_compile_failure [OF assms(1,2,3) rw]
  have ap: "apply_word E p u r w =
      (case update_dict E r (write_to_json E (dict_set (uuid_str u) word d) w) of
         (Inl e, w') \<Rightarrow> (Inl e, w') | (Inr _, w') \<Rightarrow> (Inr (uuid_str u), w'))"
    using a assms(4) by (simp add: apply_word_def Let_def)
  obtain res w' where u: "update_dict E r (write_to_json E (dict_set (uuid_str u) word d) w)
      = (res, w')" by (cases "update_dict E r (write_to_json E (dict_set (uuid_str u) word d) w)")
  from x(1) u obtain e where e: "res = Inl e"
    by (auto simp: is_compilation_error_def)
  show "is_compilation_error (fst (apply_word E p u r w))"
    using x(1) by (simp add: ap u e is_compilation_error_def)
  show "read_dict E (snd (apply_word E p u r w)) = Inr (dict_set (uuid_str u) word d)"
    using x(2) by (simp add: ap u e)
  show "jtalk_user_dict (snd (apply_word E p u r w)) = jtalk_user_dict w"
    using x(3) by (simp add: ap u e)
next
  assume a: "dict_contains k d \<and> create_word E p = Inr word
             \<and> codec_inverse_on E (dict_set k word d)"
  then have "k \<in> fst ` set d" by (simp add: dict_contains_def)
  then have ku: "\<exists>n. k = uuid_str n" by (rule read_dict_keys [OF assms(4)])
  have rw: "read_dict E (write_to_json E (dict_set k word d) w) = Inr (dict_set k word d)"
    using a ku by (intro read_after_write_dict_set [OF assms(4)]) auto
  note x = write_then_update_compile_failure [OF assms(1,2,3) rw]
  have op: "rewrite_word E k p r w = update_dict E r (write_to_json E (dict_set k word d) w)"
    using a assms(4) by (simp add: rewrite_word_def)
  show "is_compilation_error (fst (rewrite_word E k p r w))" using x(1) by (simp add: op)
  show "read_dict E (snd (rewrite_word E k p r w)) = Inr (dict_set k word d)"
    using x(2) by (simp add: op)
next
  assume a: "dict_contains k d \<and> codec_inverse_on E d"
  have rw: "read_dict E (write_to_json E (dict_del k d) w) = Inr (dict_del k d)"
    using a by (intro read_after_write_dict_del [OF assms(4)]) auto
  note x = write_then_update_compile_failure [OF assms(1,2,3) rw]
  have op: "delete_word E k r w = update_dict E r (write_to_json E (dict_del k d) w)"
    using a assms(4) by (simp add: delete_word_def)
  show "is_compilation_error (fst (delete_word E k r w))" using x(1) by (simp add: op)
  show "read_dict E (snd (delete_word E k r w)) = Inr (dict_del k d)"
    using x(2) by (simp add: op)
next
  define new where "new = (if override then dict_update d data else dict_update data d)"
  assume a: "validate_import E data = Inr () \<and> distinct (map fst data)
            \<and> (\<forall>k \<in> fst ` set data. \<exists>n. k = uuid_str n)
            \<and> codec_inverse_on E (if override then dict_update d data else dict_update data d)"
  have dist: "distinct (map fst new)"
    using a read_dict_distinct [OF assms(4)] by (simp add: new_def distinct_dict_update)
  have keys: "\<And>k. k \<in> fst ` set new \<Longrightarrow> \<exists>n. k = uuid_str n"
    using a read_dict_keys [OF assms(4)]
    by (auto simp: new_def keys_dict_update split: if_splits)
  have rw: "read_dict E (write_to_json E new w) = Inr new"
    using dist keys a by (intro read_after_write_inverse) (auto simp: new_def)
  note x = write_then_update_compile_failure [OF assms(1,2,3) rw]
  have op: "import_user_dict E data override r w = update_dict E r (write_to_json E new w)"
    using a assms(4) by (simp add: import_user_dict_def new_def)
  show "is_compilation_error (fst (import_user_dict E data override r w))"
    using x(1) by (simp add: op)
  show "read_dict E (snd (import_user_dict E data override r w))
          = Inr (if override then dict_update d data else dict_update data d)"
    using x(2) by (simp add: op new_def)
qed

lemma failing_env_fields:
  "mecab_dict_index failing_env csv = NoArtifact"
  "create_word failing_env = create_word example_env"
  "cost2priority failing_env = cost2priority example_env"
  "priority2cost failing_env = priority2cost example_env"
  "part_of_speech_data failing_env = [example_row]"
  by (simp_all add: failing_env_def example_env_def)

lemma two_word_world_fields:
  "default_dict_file two_word_world = Some ''tokyo,1348,1348,8600,noun''"
  "tmp_csv_files two_word_world = Map.empty"
  "tmp_compiled_files two_word_world = Map.empty"
  "jtalk_user_dict two_word_world = None"
  by (simp_all add: two_word_world_def example_world_def)

lemma validate_pos_example: "validate_pos [example_row] (example_word s p prio) = Inr ()"
  by (simp add: example_row_def example_word_def)

theorem compile_failure_keeps_edit_witness:
  "read_dict failing_env two_word_world =
     Inr [(uuid_str 10, example_word ''c'' ''d'' 5), (uuid_str 11, example_word ''e'' ''f'' 6)]
   \<and> is_compilation_error (fst (apply_word failing_env (''a'', ''b'', 5) 12 2 two_word_world))
   \<and> read_dict failing_env (snd (apply_word failing_env (''a'', ''b'', 5) 12 2 two_word_world))
       = Inr [(uuid_str 10, example_word ''c'' ''d'' 5), (uuid_str 11, example_word ''e'' ''f'' 6),
              (uuid_str 12, example_word ''a'' ''b'' 5)]
   \<and> jtalk_user_dict (snd (apply_word failing_env (''a'', ''b'', 5) 12 2 two_word_world)) = None
   \<and> is_compilation_error
        (fst (rewrite_word failing_env (uuid_str 10) (''a'', ''b'', 5) 2 two_word_world))
   \<and> read_dict failing_env
        (snd (rewrite_word failing_env (uuid_str 10) (''a'', ''b'', 5) 2 two_word_world))
       = Inr [(uuid_str 10, example_word ''a'' ''b'' 5), (uuid_str 11, example_word ''e'' ''f'' 6)]
   \<and> is_compilation_error (fst (delete_word failing_env (uuid_str 10) 2 two_word_world))
   \<and> read_dict failing_env (snd (delete_word failing_env (uuid_str 10) 2 two_word_world))
       = Inr [(uuid_str 11, example_word ''e'' ''f'' 6)]
   \<and> is_compilation_error
        (fst (import_user_dict failing_env
               [(uuid_str 10, example_word ''x'' ''y'' 5), (uuid_str 12, example_word ''g'' ''h'' 5)]
               True 2 two_word_world))
   \<and> read_dict failing_env
        (snd (import_user_dict failing_env
               [(uuid_str 10, example_word ''x'' ''y'' 5), (uuid_str 12, example_word ''g'' ''h'' 5)]
               True 2 two_word_world))
       = Inr [(uuid_str 10, example_word ''x'' ''y'' 5), (uuid_str 11, example_word ''e'' ''f'' 6),
              (uuid_str 12, example_word ''g'' ''h'' 5)]"
proof -
  let ?d = "[(uuid_str 10, example_word ''c'' ''d'' 5), (uuid_str 11, example_word ''e'' ''f'' 6)]"
  let ?data = "[(uuid_str 10, example_word ''x'' ''y'' 5), (uuid_str 12, example_word ''g'' ''h'' 5)]"
  have b: "default_dict_file two_word_world = Some ''tokyo,1348,1348,8600,noun''"
    and f: "tmp_compiled_files two_word_world (uuid_str 2) = None"
    by (simp_all add: two_word_world_fields)
  have m: "\<And>csv. mecab_dict_index failing_env csv = CompileRaises
               \<or> mecab_dict_index failing_env csv = NoArtifact"
    by (simp add: failing_env_fields)
  have r: "read_dict failing_env two_word_world = Inr ?d"
    using read_dict_env_cong [of failing_env example_env two_word_world]
    by (simp add: failing_env_fields read_dict_two_word_world)
  have cw: "create_word failing_env (''a'', ''b'', 5) = Inr (example_word ''a'' ''b'' 5)"
    by (simp add: failing_env_fields example_env_fields)
  have codec: "\<And>xs. list_all (\<lambda>kv. priority (snd kv) = 5 \<or> priority (snd kv) = 6) xs
                 \<Longrightarrow> codec_inverse_on failing_env xs"
    by (auto simp: codec_inverse_on_def list_all_iff failing_env_fields example_env_fields)
  have keys: "\<forall>k \<in> fst ` set ?data. \<exists>n. k = uuid_str n" by auto
  have ds1: "dict_set (uuid_str 12) (example_word ''a'' ''b'' 5) ?d
             = ?d @ [(uuid_str 12, example_word ''a'' ''b'' 5)]"
    by (simp add: uuid_str_example_neq)
  have ds2: "dict_set (uuid_str 10) (example_word ''a'' ''b'' 5) ?d
             = [(uuid_str 10, example_word ''a'' ''b'' 5), (uuid_str 11, example_word ''e'' ''f'' 6)]"
    by simp
  have dd: "dict_del (uuid_str 10) ?d = [(uuid_str 11, example_word ''e'' ''f'' 6)]"
    by (simp add: dict_del_def uuid_str_example_neq)
  have du: "dict_update ?d ?data
            = [(uuid_str 10, example_word ''x'' ''y'' 5), (uuid_str 11, example_word ''e'' ''f'' 6),
               (uuid_str 12, example_word ''g'' ''h'' 5)]"
    by (simp add: dict_update_def uuid_str_example_neq)
  have vi: "validate_import failing_env ?data = Inr ()"
    by (simp add: UUID_uuid_str failing_env_fields example_row_def example_word_def)
  have dc: "dict_contains (uuid_str 10) ?d" by (simp add: dict_contains_def)
  have dist: "distinct (map fst ?data)" by (simp add: uuid_str_example_neq)
  have c1: "codec_inverse_on failing_env (?d @ [(uuid_str 12, example_word ''a'' ''b'' 5)])"
    and c2: "codec_inverse_on failing_env
               [(uuid_str 10, example_word ''a'' ''b'' 5), (uuid_str 11, example_word ''e'' ''f'' 6)]"
    and c3: "codec_inverse_on failing_env ?d"
    and c4: "codec_inverse_on failing_env
               [(uuid_str 10, example_word ''x'' ''y'' 5), (uuid_str 11, example_word ''e'' ''f'' 6),
                (uuid_str 12, example_word ''g'' ''h'' 5)]"
    by (rule codec, simp add: example_word_def)+
  from compile_failure_keeps_edit
         [OF b f m r, where p = "(''a'', ''b'', 5)" and word = "example_word ''a'' ''b'' 5"
            and u = 12 and k = "uuid_str 10" and data = ?data and override = True]
  show ?thesis
    using r cw keys vi dc dist c1 c2 c3 c4
    by (simp add: dd du two_word_world_fields uuid_str_example_neq)
qed

subsection \<open>The round trip through the store\<close>

lemma normalised_key_uuid_str: "normalised_key (uuid_str u)"
  by (simp only: normalised_key_def UUID_uuid_str sum.case uuid_str_mod)

lemma normalised_keyD: "normalised_key k \<Longrightarrow> \<exists>u. k = uuid_str u"
  by (auto simp: normalised_key_def split: sum.splits)

lemma UUID_example_upper_not_normalised:
  "\<not> normalised_key ''00000000-0000-0000-0000-0000000000AB''"
  by (simp add: normalised_key_def UUID_example_upper uuid_str_example_upper)

text \<open>The canonical strings are the strings that \<^verbatim>\<open>str(UUID(key))\<close> gives back unchanged.\<close>

lemma hex_chr_table: "i < 16 \<Longrightarrow> hex_chr i = ''0123456789abcdef'' ! i"
  by (simp add: hex_chr_def)

lemma lower_hex_ex_hex_pad: "lower_hex xs \<Longrightarrow> \<exists>v. hex_pad (length xs) v = xs"
proof (induction xs rule: rev_induct)
  case Nil
  show ?case by simp
next
  case (snoc c xs)
  from snoc.prems have lx: "lower_hex xs" and c: "c \<in> set ''0123456789abcdef''"
    by (simp_all add: lower_hex_def)
  from snoc.IH [OF lx] obtain v where v: "hex_pad (length xs) v = xs" ..
  from c obtain i where i: "i < length ''0123456789abcdef''" "''0123456789abcdef'' ! i = c"
    unfolding in_set_conv_nth by blast
  then have i16: "i < 16" by simp
  have "hex_pad (length (xs @ [c])) (16 * v + i) = xs @ [c]"
    using i16 i(2) v by (simp add: hex_chr_def)
  then show ?case ..
qed

lemma split_36:
  assumes "length k = 36"
  shows "k = take 8 k @ [k ! 8] @ take 4 (drop 9 k) @ [k ! 13] @ take 4 (drop 14 k) @ [k ! 18]
             @ take 4 (drop 19 k) @ [k ! 23] @ drop 24 k"
proof -
  have a: "k = take 8 k @ [k ! 8] @ drop 9 k"
    using assms id_take_nth_drop [of 8 k] by simp
  have b: "drop 9 k = take 4 (drop 9 k) @ [k ! 13] @ drop 14 k"
    using assms id_take_nth_drop [of 4 "drop 9 k"] by simp
  have c: "drop 14 k = take 4 (drop 14 k) @ [k ! 18] @ drop 19 k"
    using assms id_take_nth_drop [of 4 "drop 14 k"] by simp
  have d: "drop 19 k = take 4 (drop 19 k) @ [k ! 23] @ drop 24 k"
    using assms id_take_nth_drop [of 4 "drop 19 k"] by simp
  show ?thesis
    by (subst a, subst b, subst c, subst d) simp
qed

lemma canonical_uuid_ex: "canonical_uuid k \<Longrightarrow> \<exists>u. k = uuid_str u"
proof -
  assume c: "canonical_uuid k"
  then have len: "length k = 36" by (simp add: canonical_uuid_def)
  define h where "h = take 8 k @ take 4 (drop 9 k) @ take 4 (drop 14 k) @ take 4 (drop 19 k)
                        @ drop 24 k"
  have lh: "lower_hex h"
    using c by (simp add: h_def canonical_uuid_def lower_hex_append)
  have l32: "length h = 32" using len by (simp add: h_def)
  from lower_hex_ex_hex_pad [OF lh] obtain v where v: "hex_pad 32 v = h" by (auto simp: l32)
  have t: "take 8 h = take 8 k" "take 4 (drop 8 h) = take 4 (drop 9 k)"
    "take 4 (drop 12 h) = take 4 (drop 14 k)" "take 4 (drop 16 h) = take 4 (drop 19 k)"
    "drop 20 h = drop 24 k"
    using len by (simp_all add: h_def)
  have "uuid_str v = take 8 k @ ''-'' @ take 4 (drop 9 k) @ ''-'' @ take 4 (drop 14 k) @ ''-''
                      @ take 4 (drop 19 k) @ ''-'' @ drop 24 k"
    by (simp add: uuid_str_unfold v t)
  also have "\<dots> = k"
    using c split_36 [OF len] by (simp add: canonical_uuid_def)
  finally show ?thesis by (intro exI [of _ v]) simp
qed

lemma canonical_uuid_iff: "canonical_uuid k \<longleftrightarrow> normalised_key k"
  using canonical_uuid_ex normalised_keyD normalised_key_uuid_str canonical_uuid_uuid_str
  by blast

text \<open>
  C8, as claimed, fails: \<^verbatim>\<open>import_user_dict\<close> accepts every key that \<^verbatim>\<open>UUID\<close> parses
  and hands it to \<^verbatim>\<open>_write_to_json\<close> as it is, and \<^verbatim>\<open>read_dict\<close> returns the key
  normalised. A dictionary with an uppercase key does not come back equal.
\<close>

theorem write_read_counterexample:
  "UUID ''00000000-0000-0000-0000-0000000000AB'' = Inr 171
   \<and> \<not> canonical_uuid ''00000000-0000-0000-0000-0000000000AB''
   \<and> read_dict example_env
        (write_to_json example_env
           [(''00000000-0000-0000-0000-0000000000AB'', example_word ''a'' ''b'' 5)] example_world)
       = Inr [(''00000000-0000-0000-0000-0000000000ab'', example_word ''a'' ''b'' 5)]
   \<and> read_dict example_env
        (write_to_json example_env
           [(''00000000-0000-0000-0000-0000000000AB'', example_word ''a'' ''b'' 5)] example_world)
       \<noteq> Inr [(''00000000-0000-0000-0000-0000000000AB'', example_word ''a'' ''b'' 5)]"
  by (simp add: read_dict_def write_to_json_fields UUID_example_upper uuid_str_example_upper
        example_roundtrip canonical_uuid_iff UUID_example_upper_not_normalised)

text \<open>
  C8, amended. For every dictionary whose keys are UUID strings in the canonical form,
  lowercase and hyphenated (the form in which \<^verbatim>\<open>apply_word\<close> makes them and
  \<^verbatim>\<open>read_dict\<close> returns them), writing it to the store and reading the store back
  returns the same dictionary, the cost conversion being its own inverse on its words.
  (The keys of a \<^verbatim>\<open>dict\<close> are distinct.)
\<close>

theorem write_read_roundtrip:
  assumes "distinct (map fst D)"
    and "\<forall>k \<in> fst ` set D. canonical_uuid k"
    and "codec_inverse_on E D"
  shows "read_dict E (write_to_json E D w) = Inr D"
  using assms by (intro read_after_write_inverse) (auto dest: canonical_uuid_ex)

theorem write_read_roundtrip_witness:
  "distinct (map fst [(uuid_str 10, example_word ''c'' ''d'' 5),
                      (uuid_str 11, example_word ''e'' ''f'' 6)])
   \<and> canonical_uuid (uuid_str 10) \<and> canonical_uuid (uuid_str 11)
   \<and> codec_inverse_on example_env
        [(uuid_str 10, example_word ''c'' ''d'' 5), (uuid_str 11, example_word ''e'' ''f'' 6)]
   \<and> read_dict example_env
        (write_to_json example_env
           [(uuid_str 10, example_word ''c'' ''d'' 5), (uuid_str 11, example_word ''e'' ''f'' 6)]
           example_world)
       = Inr [(uuid_str 10, example_word ''c'' ''d'' 5), (uuid_str 11, example_word ''e'' ''f'' 6)]"
proof -
  let ?D = "[(uuid_str 10, example_word ''c'' ''d'' 5), (uuid_str 11, example_word ''e'' ''f'' 6)]"
  have d: "distinct (map fst ?D)" by (simp add: uuid_str_example_neq)
  have n: "\<forall>k \<in> fst ` set ?D. canonical_uuid k" by (simp add: canonical_uuid_uuid_str)
  have c: "codec_inverse_on example_env ?D"
    by (simp add: codec_inverse_on_def example_env_fields example_word_def)
  from write_read_roundtrip [OF d n c, of example_world]
  show ?thesis using d c by (simp add: canonical_uuid_uuid_str)
qed

subsection \<open>Importing\<close>




subsection \<open>The validation of an import\<close>

lemma validate_pos_find:
  "validate_pos table word =
     (case find (\<lambda>row. pos_context_id row = context_id word) table of
        None \<Rightarrow> Inl ValueError_unsupported_pos
      | Some row \<Rightarrow> if matches_row row word then Inr () else Inl AssertionError)"
  by (induction table) (auto simp: matches_row_def)

lemma import_user_dict_invalid:
  "validate_import E data = Inl e \<Longrightarrow> import_user_dict E data override r w = (Inl e, w)"
  by (simp add: import_user_dict_def)

lemma validate_pos_mismatched:
  "validate_pos (part_of_speech_data example_env) mismatched_word = Inl AssertionError"
  by (simp add: example_env_fields example_row_def mismatched_word_def example_word_def)

lemma validate_pos_unknown:
  "validate_pos (part_of_speech_data example_env) unknown_pos_word = Inl ValueError_unsupported_pos"
  by (simp add: example_env_fields example_row_def unknown_pos_word_def example_word_def)

lemma UUID_error: "UUID s = Inl e \<Longrightarrow> e = ValueError_badly_formed_uuid"
  by (auto simp: UUID_def Let_def split: if_splits option.splits)

lemma validate_pos_category_error:
  "validate_pos table word = (case category_error table word of None \<Rightarrow> Inr () | Some e \<Rightarrow> Inl e)"
  by (simp add: validate_pos_find category_error_def split: option.splits)

lemma validate_import_Cons:
  "validate_import E (kv # rest) =
     (case entry_error E kv of Some e \<Rightarrow> Inl e | None \<Rightarrow> validate_import E rest)"
  by (cases kv)
     (auto simp: entry_error_def validate_pos_category_error dest: UUID_error
           split: sum.splits option.splits)

lemma validate_import_first_error:
  "\<forall>x \<in> set pre. entry_error E x = None \<Longrightarrow> entry_error E bad = Some e \<Longrightarrow>
   validate_import E (pre @ bad # post) = Inl e"
  by (induction pre) (simp_all add: validate_import_Cons)

lemma first_error_split:
  assumes "kv \<in> set data" and "entry_error E kv \<noteq> None"
  shows "\<exists>pre bad post e. data = pre @ bad # post \<and> (\<forall>x \<in> set pre. entry_error E x = None)
      \<and> entry_error E bad = Some e"
proof -
  from assms have "\<exists>x \<in> set data. entry_error E x \<noteq> None" by blast
  from split_list_first_prop [OF this]
  obtain pre bad post where d: "data = pre @ bad # post" and b: "entry_error E bad \<noteq> None"
    and p: "\<forall>x \<in> set pre. \<not> entry_error E x \<noteq> None"
    by blast
  from b obtain e where "entry_error E bad = Some e" by blast
  with d p show ?thesis by blast
qed

lemma category_error_examples:
  "category_error (part_of_speech_data example_env) (example_word s p prio) = None"
  "category_error (part_of_speech_data example_env) unknown_pos_word
     = Some ValueError_unsupported_pos"
  "category_error (part_of_speech_data example_env) mismatched_word = Some AssertionError"
  by (simp_all add: category_error_def matches_row_def example_env_fields example_row_def
        example_word_def unknown_pos_word_def mismatched_word_def)

lemma entry_error_examples:
  "entry_error example_env (uuid_str u, example_word s p prio) = None"
  "entry_error example_env (uuid_str u, unknown_pos_word) = Some ValueError_unsupported_pos"
  "entry_error example_env (uuid_str u, mismatched_word) = Some AssertionError"
  by (simp_all add: entry_error_def UUID_uuid_str category_error_examples)

text \<open>
  C4, as claimed, fails in the error it names: a word whose context id is in the table
  and whose part of speech differs from that row makes \<^verbatim>\<open>import_user_dict\<close> fail on the
  \<^verbatim>\<open>assert\<close> of line 262, with \<^verbatim>\<open>AssertionError\<close> and not with the \<^verbatim>\<open>ValueError\<close> of
  line 281. The files stay as they were, as claimed.
\<close>

theorem import_mismatch_counterexample:
  "\<not> matches_row example_row mismatched_word
   \<and> import_user_dict example_env [(uuid_str 12, mismatched_word)] False 2 two_word_world
       = (Inl AssertionError, two_word_world)
   \<and> AssertionError \<noteq> ValueError_unsupported_pos"
proof -
  have "validate_import example_env [(uuid_str 12, mismatched_word)] = Inl AssertionError"
    by (simp add: UUID_uuid_str validate_pos_mismatched)
  then have "import_user_dict example_env [(uuid_str 12, mismatched_word)] False 2 two_word_world
             = (Inl AssertionError, two_word_world)"
    by (rule import_user_dict_invalid)
  moreover have "\<not> matches_row example_row mismatched_word"
    by (simp add: matches_row_def example_row_def mismatched_word_def example_word_def)
  ultimately show ?thesis by simp
qed

text \<open>
  C4, amended. If any entry of the batch fails the check against the table, then
  \<^verbatim>\<open>import_user_dict\<close> fails and every file is as before: nothing is merged, written or
  recompiled. The error is the one of the first entry of the batch that fails a check:
  \<^verbatim>\<open>ValueError\<close> (unsupported part of speech) when no row has its context id,
  \<^verbatim>\<open>AssertionError\<close> when the first row with its context id differs from it in a
  part-of-speech field or does not list its accent-associative rule, and the
  \<^verbatim>\<open>ValueError\<close> of \<^verbatim>\<open>UUID\<close> when its key is not a UUID.
\<close>

theorem import_validation_atomic:
  assumes "kv \<in> set data"
    and "category_error (part_of_speech_data E) (snd kv) \<noteq> None"
  shows "(\<exists>pre bad post e.
            data = pre @ bad # post
          \<and> (\<forall>x \<in> set pre. entry_error E x = None)
          \<and> entry_error E bad = Some e)
       \<and> (\<forall>pre bad post e.
            data = pre @ bad # post
            \<longrightarrow> (\<forall>x \<in> set pre. entry_error E x = None)
            \<longrightarrow> entry_error E bad = Some e
            \<longrightarrow> import_user_dict E data override r w = (Inl e, w))"
proof
  from assms(2) have "entry_error E kv \<noteq> None"
    by (auto simp: entry_error_def split: sum.splits)
  from first_error_split [OF assms(1) this]
  show "\<exists>pre bad post e. data = pre @ bad # post
          \<and> (\<forall>x \<in> set pre. entry_error E x = None) \<and> entry_error E bad = Some e" .
  show "\<forall>pre bad post e.
            data = pre @ bad # post
            \<longrightarrow> (\<forall>x \<in> set pre. entry_error E x = None)
            \<longrightarrow> entry_error E bad = Some e
            \<longrightarrow> import_user_dict E data override r w = (Inl e, w)"
    by (auto intro!: import_user_dict_invalid validate_import_first_error)
qed

theorem import_validation_atomic_witness:
  "(uuid_str 13, unknown_pos_word)
     \<in> set [(uuid_str 12, example_word ''g'' ''h'' 5), (uuid_str 13, unknown_pos_word)]
   \<and> category_error (part_of_speech_data example_env) unknown_pos_word
       = Some ValueError_unsupported_pos
   \<and> import_user_dict example_env
        [(uuid_str 12, example_word ''g'' ''h'' 5), (uuid_str 13, unknown_pos_word)]
        True 2 two_word_world
       = (Inl ValueError_unsupported_pos, two_word_world)
   \<and> (uuid_str 13, mismatched_word)
     \<in> set [(uuid_str 12, example_word ''g'' ''h'' 5), (uuid_str 13, mismatched_word),
            (uuid_str 14, unknown_pos_word)]
   \<and> category_error (part_of_speech_data example_env) mismatched_word = Some AssertionError
   \<and> import_user_dict example_env
        [(uuid_str 12, example_word ''g'' ''h'' 5), (uuid_str 13, mismatched_word),
         (uuid_str 14, unknown_pos_word)]
        True 2 two_word_world
       = (Inl AssertionError, two_word_world)"
proof -
  let ?ok = "(uuid_str 12, example_word ''g'' ''h'' 5)"
  let ?d1 = "[?ok, (uuid_str 13, unknown_pos_word)]"
  let ?d2 = "[?ok, (uuid_str 13, mismatched_word), (uuid_str 14, unknown_pos_word)]"
  have m1: "(uuid_str 13, unknown_pos_word) \<in> set ?d1" by simp
  have c1: "category_error (part_of_speech_data example_env) (snd (uuid_str 13, unknown_pos_word))
              \<noteq> None"
    by (simp add: category_error_examples)
  have m2: "(uuid_str 13, mismatched_word) \<in> set ?d2" by simp
  have c2: "category_error (part_of_speech_data example_env) (snd (uuid_str 13, mismatched_word))
              \<noteq> None"
    by (simp add: category_error_examples)
  from import_validation_atomic [OF m1 c1, of True 2 two_word_world, THEN conjunct2,
         rule_format, of "[?ok]" "(uuid_str 13, unknown_pos_word)" "[]" ValueError_unsupported_pos]
  have 1: "import_user_dict example_env ?d1 True 2 two_word_world
             = (Inl ValueError_unsupported_pos, two_word_world)"
    by (simp add: entry_error_examples)
  from import_validation_atomic [OF m2 c2, of True 2 two_word_world, THEN conjunct2,
         rule_format, of "[?ok]" "(uuid_str 13, mismatched_word)"
           "[(uuid_str 14, unknown_pos_word)]" AssertionError]
  have 2: "import_user_dict example_env ?d2 True 2 two_word_world
             = (Inl AssertionError, two_word_world)"
    by (simp add: entry_error_examples)
  show ?thesis using 1 2 by (simp add: category_error_examples)
qed

subsection \<open>Concurrent callers\<close>

lemma update_dict_success:
  assumes "default_dict_file w = Some base"
    and "read_dict E w = Inr d"
    and "\<And>csv. mecab_dict_index E csv = Artifact csv"
    and "\<And>i. update_global_jtalk_with_user_dict E i"
    and "\<not> win32 E"
  shows "fst (update_dict E r w) = Inr ()"
  using assms
  by (simp add: update_dict_fst update_dict_try_def update_dict_finally_def
        delete_file_on_close_def Let_def)

lemma thread_step_called:
  "read_dict E w = Inr d \<Longrightarrow>
   thread_step E (Apply_called p u r) w = (Apply_has_read d p u r, w)"
  by (simp add: thread_step_def)

lemma thread_step_has_read:
  "create_word E p = Inr word \<Longrightarrow>
   thread_step E (Apply_has_read d p u r) w =
     (Apply_has_written (uuid_str u) r, write_to_json E (dict_set (uuid_str u) word d) w)"
  by (simp add: thread_step_def)

lemma thread_step_has_written:
  "fst (update_dict E r w) = Inr () \<Longrightarrow>
   thread_step E (Apply_has_written k r) w = (Apply_returned (Inr k), snd (update_dict E r w))"
  by (cases "update_dict E r w") (simp add: thread_step_def)

text \<open>A thread that runs alone does what \<^verbatim>\<open>apply_word\<close> does.\<close>

lemma run_single_thread:
  "run E [0, 0, 0] [Apply_called p u r] w =
     ([Apply_returned (fst (apply_word E p u r w))], snd (apply_word E p u r w))"
  by (cases "update_dict E r (write_to_json E
        (dict_set (uuid_str u) (projr (create_word E p)) (projr (read_dict E w))) w)")
     (auto simp: thread_step_def apply_word_def Let_def split: sum.splits)

lemma persisted_entries_update_dict:
  "persisted_entries (snd (update_dict E r w)) = persisted_entries w"
  by (simp add: persisted_entries_def update_dict_frame)

lemma persisted_entries_write_to_json:
  "distinct (map fst d) \<Longrightarrow> persisted_entries (write_to_json E d w) = Some (length d)"
  by (simp add: persisted_entries_def write_to_json_fields save_loop_distinct)

text \<open>
  C1. The code breaks the claim. Two callers of \<^verbatim>\<open>apply_word\<close> start on the empty
  dictionary; each takes \<^verbatim>\<open>mutex_user_dict\<close> for its \<^verbatim>\<open>read_dict\<close> and releases it,
  then each takes it again for its \<^verbatim>\<open>_write_to_json\<close>. With the two reads before the
  two writes, both callers return their new id without an error, and the persisted
  dictionary has one entry, the second caller's: the first caller's word is lost. With
  the same two callers one after the other it has two entries.
\<close>

theorem concurrent_apply_lost_update:
  "fst (run example_env [0, 1, 0, 1, 0, 1]
          [Apply_called (''a'', ''b'', 5) 5 3, Apply_called (''c'', ''d'', 5) 6 4] example_world)
     = [Apply_returned (Inr (uuid_str 5)), Apply_returned (Inr (uuid_str 6))]
   \<and> persisted_entries (snd (run example_env [0, 1, 0, 1, 0, 1]
          [Apply_called (''a'', ''b'', 5) 5 3, Apply_called (''c'', ''d'', 5) 6 4] example_world))
     = Some 1
   \<and> read_dict example_env (snd (run example_env [0, 1, 0, 1, 0, 1]
          [Apply_called (''a'', ''b'', 5) 5 3, Apply_called (''c'', ''d'', 5) 6 4] example_world))
     = Inr [(uuid_str 6, example_word ''c'' ''d'' 5)]
   \<and> persisted_entries (snd (run example_env [0, 0, 0, 1, 1, 1]
          [Apply_called (''a'', ''b'', 5) 5 3, Apply_called (''c'', ''d'', 5) 6 4] example_world))
     = Some 2"
proof -
  let ?E = example_env
  let ?wa = "example_word ''a'' ''b'' 5" and ?wb = "example_word ''c'' ''d'' 5"
  note rd0 = read_dict_example_world [of ?E]
  have cwa: "create_word ?E (''a'', ''b'', 5) = Inr ?wa"
    and cwb: "create_word ?E (''c'', ''d'', 5) = Inr ?wb"
    by (simp_all add: example_env_fields)
  have ok: "\<And>r w d. default_dict_file w = default_dict_file example_world \<Longrightarrow>
              read_dict ?E w = Inr d \<Longrightarrow> fst (update_dict ?E r w) = Inr ()"
    by (rule update_dict_success) (simp_all add: example_world_fields example_env_fields)
  \<comment> \<open>the two reads first\<close>
  define w1 where "w1 = write_to_json ?E [(uuid_str 5, ?wa)] example_world"
  define w2 where "w2 = write_to_json ?E [(uuid_str 6, ?wb)] w1"
  define w3 where "w3 = snd (update_dict ?E 3 w2)"
  define w4 where "w4 = snd (update_dict ?E 4 w3)"
  have r2: "read_dict ?E w2 = Inr [(uuid_str 6, ?wb)]"
    unfolding w2_def by (rule read_dict_one_word)
  have r3: "read_dict ?E w3 = Inr [(uuid_str 6, ?wb)]"
    unfolding w3_def by (simp add: read_dict_update_dict r2)
  have d2: "default_dict_file w2 = default_dict_file example_world"
    by (simp add: w2_def w1_def write_to_json_fields)
  have d3: "default_dict_file w3 = default_dict_file example_world"
    by (simp add: w3_def update_dict_frame d2)
  have u3: "fst (update_dict ?E 3 w2) = Inr ()" by (rule ok [OF d2 r2])
  have u4: "fst (update_dict ?E 4 w3) = Inr ()" by (rule ok [OF d3 r3])
  have run1: "run ?E [0, 1, 0, 1, 0, 1]
          [Apply_called (''a'', ''b'', 5) 5 3, Apply_called (''c'', ''d'', 5) 6 4] example_world
        = ([Apply_returned (Inr (uuid_str 5)), Apply_returned (Inr (uuid_str 6))], w4)"
    by (simp add: thread_step_called [OF rd0] thread_step_has_read [OF cwa]
          thread_step_has_read [OF cwb] thread_step_has_written [OF u3]
          thread_step_has_written [OF u4]
          w1_def [symmetric] w2_def [symmetric] w3_def [symmetric] w4_def [symmetric])
  have p4: "persisted_entries w4 = Some 1"
    by (simp add: w4_def w3_def w2_def persisted_entries_update_dict
          persisted_entries_write_to_json)
  have r4: "read_dict ?E w4 = Inr [(uuid_str 6, ?wb)]"
    unfolding w4_def by (simp add: read_dict_update_dict r3)
  \<comment> \<open>one caller after the other\<close>
  define v1 where "v1 = snd (update_dict ?E 3 w1)"
  define v2 where "v2 = write_to_json ?E [(uuid_str 5, ?wa), (uuid_str 6, ?wb)] v1"
  define v3 where "v3 = snd (update_dict ?E 4 v2)"
  have neq: "uuid_str 5 \<noteq> uuid_str 6" by (rule uuid_str_neq) simp
  have q1: "read_dict ?E w1 = Inr [(uuid_str 5, ?wa)]"
    unfolding w1_def by (rule read_dict_one_word)
  have e1: "default_dict_file w1 = default_dict_file example_world"
    by (simp add: w1_def write_to_json_fields)
  have t1: "fst (update_dict ?E 3 w1) = Inr ()" by (rule ok [OF e1 q1])
  have q1': "read_dict ?E v1 = Inr [(uuid_str 5, ?wa)]"
    unfolding v1_def by (simp add: read_dict_update_dict q1)
  have q2: "read_dict ?E v2 = Inr [(uuid_str 5, ?wa), (uuid_str 6, ?wb)]"
    unfolding v2_def
    by (rule read_after_write_inverse)
       (auto simp: codec_inverse_on_def example_env_fields example_word_def neq)
  have e2: "default_dict_file v2 = default_dict_file example_world"
    by (simp add: v2_def v1_def update_dict_frame write_to_json_fields e1)
  have t2: "fst (update_dict ?E 4 v2) = Inr ()" by (rule ok [OF e2 q2])
  have run2: "run ?E [0, 0, 0, 1, 1, 1]
          [Apply_called (''a'', ''b'', 5) 5 3, Apply_called (''c'', ''d'', 5) 6 4] example_world
        = ([Apply_returned (Inr (uuid_str 5)), Apply_returned (Inr (uuid_str 6))], v3)"
    by (simp add: thread_step_called [OF rd0] thread_step_called [OF q1']
          thread_step_has_read [OF cwa] thread_step_has_read [OF cwb]
          thread_step_has_written [OF t1] thread_step_has_written [OF t2] neq
          w1_def [symmetric] v1_def [symmetric] v2_def [symmetric] v3_def [symmetric])
  have p3: "persisted_entries v3 = Some 2"
    by (simp add: v3_def v2_def persisted_entries_update_dict
          persisted_entries_write_to_json neq)
  show ?thesis by (simp only: run1 run2 fst_conv snd_conv p4 r4 p3 simp_thms)
qed

subsection \<open>The callers with the locks in the state\<close>

text \<open>
  A thread that runs alone through one of the locked methods does what the method does,
  and a step of the coarser model is such a run: so every run of that model is a run
  of this one, and a call that runs alone does what the operation does.
\<close>

lemma start_fields [simp]:
  "files (start w) = w" "locks (start w) l = None" "(start w)\<lparr>files := w'\<rparr> = start w'"
  by (simp_all add: start_def)

lemma list_update_same: "ts ! i = x \<Longrightarrow> ts[i := x] = ts"
  using list_update_id [of ts i] by simp

lemma exec_append:
  "exec E (xs @ ys) ts s = (case exec E xs ts s of (ts', s') \<Rightarrow> exec E ys ts' s')"
  by (induction xs arbitrary: ts s) (simp_all split: prod.splits)

lemma solo_step:
  assumes "i < length ts" and "step E i (ts ! i) s = (c', s')"
    and "\<exists>n. exec E (replicate n i) (ts[i := c']) s' = R"
  shows "\<exists>n. exec E (replicate n i) ts s = R"
proof -
  from assms(3) obtain n where "exec E (replicate n i) (ts[i := c']) s' = R" ..
  with assms(1,2) have "exec E (replicate (Suc n) i) ts s = R" by simp
  then show ?thesis ..
qed

lemma solo_done: "ts' = ts \<Longrightarrow> s' = s \<Longrightarrow> \<exists>n. exec E (replicate n i) ts s = (ts', s')"
  by (rule exI [of _ 0]) simp

lemma read_dict_locked_solo:
  assumes "i < length ts" and "ts ! i = read_dict_locked k"
    and "locks s mutex_user_dict = None"
    and "\<exists>n. exec E (replicate n i) (ts[i := k (read_dict E (files s))]) s = R"
  shows "\<exists>n. exec E (replicate n i) ts s = R"
  apply (rule solo_step, rule assms(1), simp add: assms read_dict_locked_def)
  apply (rule solo_step, simp add: assms, simp add: assms)
  apply (rule solo_step, simp add: assms, simp add: assms)
  using assms by (simp add: fun_upd_idem)

lemma write_to_json_locked_solo:
  assumes "i < length ts" and "ts ! i = write_to_json_locked E d k"
    and "locks s mutex_user_dict = None"
    and "\<exists>n. exec E (replicate n i) (ts[i := k]) (s\<lparr>files := write_to_json E d (files s)\<rparr>) = R"
  shows "\<exists>n. exec E (replicate n i) ts s = R"
  apply (rule solo_step, rule assms(1), simp add: assms write_to_json_locked_def)
  apply (rule solo_step, simp add: assms, simp add: assms)
  apply (rule solo_step, simp add: assms, simp add: assms)
  apply (rule solo_step, simp add: assms, simp add: assms)
  using assms by (simp add: fun_upd_idem write_to_json_def write_bytes_def)

lemma update_dict_try_export:
  "update_dict_try E name w =
     (case default_dict_file w of
        None \<Rightarrow> (Inr (), warn ''Cannot find default dictionary.'' w)
      | Some default_dict \<Rightarrow>
          (case read_dict E w of
             Inl e \<Rightarrow> (Inl e, w)
           | Inr user_dict \<Rightarrow> update_dict_export E name default_dict user_dict w))"
  by (simp add: update_dict_try_def update_dict_export_def warn_def Let_def
        split: option.splits sum.splits)

lemma update_dict_locked_solo:
  assumes i: "i < length ts" and c: "ts ! i = update_dict_locked E random_string k"
    and u: "locks s mutex_user_dict = None" and j: "locks s mutex_openjtalk_dict = None"
    and k: "\<exists>n. exec E (replicate n i)
                (ts[i := k (fst (update_dict E random_string (files s)))])
                (s\<lparr>files := snd (update_dict E random_string (files s))\<rparr>) = R"
  shows "\<exists>n. exec E (replicate n i) ts s = R"
proof (cases "default_dict_file (files s)")
  case None
  have t: "update_dict_try E (uuid_str random_string) (files s)
             = (Inr (), warn ''Cannot find default dictionary.'' (files s))"
    by (simp add: update_dict_try_export None)
  from k have k': "\<exists>n. exec E (replicate n i)
      (ts[i := k (case fst (update_dict_finally E (uuid_str random_string)
                      (warn ''Cannot find default dictionary.'' (files s))) of
            Inl e \<Rightarrow> Inl e | Inr _ \<Rightarrow> Inr ())])
      (s\<lparr>files := snd (update_dict_finally E (uuid_str random_string)
                        (warn ''Cannot find default dictionary.'' (files s)))\<rparr>) = R"
    by (simp add: update_dict_fst update_dict_snd t cong: sum.case_cong)
  show ?thesis
    apply (rule solo_step, rule i,
           simp add: c j update_dict_locked_def update_dict_finally_locked_def Let_def)
    apply (rule solo_step, simp add: i, simp add: i None update_dict_finally_locked_def)
    apply (rule solo_step, simp add: i, simp add: i update_dict_finally_locked_def)
    apply (rule solo_step, simp add: i, simp add: i update_dict_finally_locked_def)
    using k' j by (simp add: fun_upd_idem cong: sum.case_cong)
next
  case (Some dd)
  show ?thesis
  proof (cases "read_dict E (files s)")
    case (Inl e)
    have t: "update_dict_try E (uuid_str random_string) (files s) = (Inl e, files s)"
      by (simp add: update_dict_try_export Some Inl)
    from k have k': "\<exists>n. exec E (replicate n i)
        (ts[i := k (case fst (update_dict_finally E (uuid_str random_string) (files s)) of
              Inl e \<Rightarrow> Inl e | Inr _ \<Rightarrow> Inl e)])
        (s\<lparr>files := snd (update_dict_finally E (uuid_str random_string) (files s))\<rparr>) = R"
      by (simp add: update_dict_fst update_dict_snd t cong: sum.case_cong)
    show ?thesis
      apply (rule solo_step, rule i,
             simp add: c j update_dict_locked_def update_dict_finally_locked_def Let_def
               read_dict_locked_def)
      apply (rule solo_step, simp add: i, simp add: i Some read_dict_locked_def)
      apply (rule solo_step, simp add: i, simp add: i u)
      apply (rule solo_step, simp add: i, simp add: i Inl update_dict_finally_locked_def)
      apply (rule solo_step, simp add: i, simp add: i update_dict_finally_locked_def)
      apply (rule solo_step, simp add: i, simp add: i update_dict_finally_locked_def)
      apply (rule solo_step, simp add: i, simp add: i update_dict_finally_locked_def)
      using k' j u by (simp add: fun_upd_idem fun_upd_twist cong: sum.case_cong)
  next
    case (Inr ud)
    let ?x = "update_dict_export E (uuid_str random_string) dd ud (files s)"
    have t: "update_dict_try E (uuid_str random_string) (files s) = ?x"
      by (simp add: update_dict_try_export Some Inr)
    from k have k': "\<exists>n. exec E (replicate n i)
        (ts[i := k (case fst (update_dict_finally E (uuid_str random_string) (snd ?x)) of
              Inl e \<Rightarrow> Inl e | Inr _ \<Rightarrow> fst ?x)])
        (s\<lparr>files := snd (update_dict_finally E (uuid_str random_string) (snd ?x))\<rparr>) = R"
      by (simp add: update_dict_fst update_dict_snd t cong: sum.case_cong)
    show ?thesis
      apply (rule solo_step, rule i,
             simp add: c j update_dict_locked_def update_dict_finally_locked_def Let_def
               read_dict_locked_def)
      apply (rule solo_step, simp add: i, simp add: i Some read_dict_locked_def)
      apply (rule solo_step, simp add: i, simp add: i u)
      apply (rule solo_step, simp add: i, simp add: i Inr)
      apply (rule solo_step, simp add: i, simp add: i update_dict_finally_locked_def)
      apply (rule solo_step, simp add: i, simp add: i update_dict_finally_locked_def)
      apply (rule solo_step, simp add: i, simp add: i update_dict_finally_locked_def)
      apply (rule solo_step, simp add: i, simp add: i update_dict_finally_locked_def)
      using k' j u by (simp add: fun_upd_idem fun_upd_twist cong: sum.case_cong)
  qed
qed

lemma save_and_update_solo:
  assumes "i < length ts" and "ts ! i = save_and_update E d r result"
    and "locks s mutex_user_dict = None" and "locks s mutex_openjtalk_dict = None"
  shows "\<exists>n. exec E (replicate n i) ts s =
           (ts[i := Return (case fst (update_dict E r (write_to_json E d (files s))) of
                              Inl e \<Rightarrow> Inl e | Inr _ \<Rightarrow> Inr result)],
            s\<lparr>files := snd (update_dict E r (write_to_json E d (files s)))\<rparr>)"
  apply (rule write_to_json_locked_solo, rule assms(1), simp add: assms save_and_update_def,
         rule assms(3))
  apply (rule update_dict_locked_solo, simp add: assms, simp add: assms, simp add: assms,
         simp add: assms)
  by (rule solo_done) (simp_all split: sum.splits)

lemma thread_step_lock_level:
  assumes i: "i < length ts"
    and u: "locks s mutex_user_dict = None" and j: "locks s mutex_openjtalk_dict = None"
  shows "\<exists>n. exec E (replicate n i) (map (lock_level E) ts) s =
           (map (lock_level E) (ts[i := fst (thread_step E (ts ! i) (files s))]),
            s\<lparr>files := snd (thread_step E (ts ! i) (files s))\<rparr>)"
proof (cases "ts ! i")
  case (Apply_called p nu r)
  show ?thesis
    apply (rule read_dict_locked_solo [where k = "\<lambda>res. case res of
               Inl e \<Rightarrow> Return (Inl e)
             | Inr user_dict \<Rightarrow> lock_level E (Apply_has_read user_dict p nu r)"])
       apply (simp add: i)
      apply (simp add: i Apply_called Let_def cong: sum.case_cong)
     apply (rule u)
    by (rule solo_done)
       (simp_all add: Apply_called thread_step_def map_update split: sum.splits
          cong: sum.case_cong)
next
  case (Apply_has_read d p nu r)
  show ?thesis
  proof (cases "create_word E p")
    case (Inl e)
    then show ?thesis
      by (intro solo_done) (simp_all add: Apply_has_read thread_step_def map_update i
            list_update_same_conv)
  next
    case (Inr word)
    show ?thesis
      apply (rule write_to_json_locked_solo [where d = "dict_set (uuid_str nu) word d"
               and k = "lock_level E (Apply_has_written (uuid_str nu) r)"])
         apply (simp add: i)
        apply (simp add: i Apply_has_read Inr save_and_update_def)
       apply (rule u)
      by (rule solo_done) (simp_all add: Apply_has_read Inr thread_step_def map_update)
  qed
next
  case (Apply_has_written k r)
  obtain res w' where ud: "update_dict E r (files s) = (res, w')"
    by (cases "update_dict E r (files s)")
  show ?thesis
    apply (rule update_dict_locked_solo [where random_string = r and k = "\<lambda>res. case res of
               Inl e \<Rightarrow> Return (Inl e)
             | Inr _ \<Rightarrow> Return (Inr (Returns_str k))"])
        apply (simp add: i)
       apply (simp add: i Apply_has_written)
      apply (rule u)
     apply (rule j)
    by (rule solo_done)
       (cases res; simp add: Apply_has_written thread_step_def map_update ud)+
next
  case (Apply_returned res)
  then show ?thesis
    by (intro solo_done) (simp_all add: thread_step_def list_update_same)
next
  case Lookup_called
  show ?thesis
    apply (rule read_dict_locked_solo [where k = "\<lambda>res. case res of
               Inl e \<Rightarrow> Return (Inl e)
             | Inr user_dict \<Rightarrow> Return (Inr (Returns_dict user_dict))"])
       apply (simp add: i)
      apply (simp add: i Lookup_called)
     apply (rule u)
    by (rule solo_done)
       (simp_all add: Lookup_called thread_step_def map_update split: sum.splits)
next
  case (Lookup_returned res)
  then show ?thesis
    by (intro solo_done) (simp_all add: thread_step_def list_update_same)
qed

lemma run_lock_level:
  "\<exists>schedule'. exec E schedule' (map (lock_level E) ts) (start w) =
     (map (lock_level E) (fst (run E schedule ts w)), start (snd (run E schedule ts w)))"
proof (induction schedule arbitrary: ts w)
  case Nil
  have "exec E [] (map (lock_level E) ts) (start w) = (map (lock_level E) ts, start w)" by simp
  then show ?case by (intro exI [of _ "[]"]) simp
next
  case (Cons i schedule)
  show ?case
  proof (cases "i < length ts")
    case False
    with Cons.IH [of ts w] show ?thesis by simp
  next
    case True
    obtain t' w' where st: "thread_step E (ts ! i) w = (t', w')"
      by (cases "thread_step E (ts ! i) w")
    from thread_step_lock_level [OF True, of "start w" E] st
    obtain n where 1: "exec E (replicate n i) (map (lock_level E) ts) (start w) =
        (map (lock_level E) (ts[i := t']), start w')"
      by auto
    from Cons.IH [of "ts[i := t']" w']
    obtain rest where 2: "exec E rest (map (lock_level E) (ts[i := t'])) (start w') =
        (map (lock_level E) (fst (run E schedule (ts[i := t']) w')),
         start (snd (run E schedule (ts[i := t']) w')))"
      by blast
    have "exec E (replicate n i @ rest) (map (lock_level E) ts) (start w) =
        (map (lock_level E) (fst (run E (i # schedule) ts w)),
         start (snd (run E (i # schedule) ts w)))"
      by (simp add: exec_append 1 2 True st)
    then show ?thesis ..
  qed
qed

lemma alone_Return: "\<exists>n. exec E (replicate n 0) [Return r] s = ([Return r], s)"
  by (rule solo_done) simp_all

lemma read_dict_locked_alone:
  assumes "locks s mutex_user_dict = None"
    and "\<exists>n. exec E (replicate n 0) [k (read_dict E (files s))] s = R"
  shows "\<exists>n. exec E (replicate n 0) [read_dict_locked k] s = R"
  using read_dict_locked_solo [of 0 "[read_dict_locked k]" k s E R] assms by simp

lemma save_and_update_alone:
  assumes "locks s mutex_user_dict = None" and "locks s mutex_openjtalk_dict = None"
  shows "\<exists>n. exec E (replicate n 0) [save_and_update E d r result] s =
           ([Return (case fst (update_dict E r (write_to_json E d (files s))) of
                       Inl e \<Rightarrow> Inl e | Inr _ \<Rightarrow> Inr result)],
            s\<lparr>files := snd (update_dict E r (write_to_json E d (files s)))\<rparr>)"
  using save_and_update_solo [of 0 "[save_and_update E d r result]" E d r result s] assms
  by simp

lemma apply_word_alone:
  "\<exists>n. exec E (replicate n 0) [program E (Apply_word p u r)] (start w) =
     ([Return (map_sum id Returns_str (fst (apply_word E p u r w)))],
      start (snd (apply_word E p u r w)))"
proof -
  have "\<exists>n. exec E (replicate n 0)
          [case read_dict E w of
             Inl e \<Rightarrow> Return (Inl e)
           | Inr user_dict \<Rightarrow>
               (case create_word E p of
                  Inl e \<Rightarrow> Return (Inl e)
                | Inr word \<Rightarrow>
                    save_and_update E (dict_set (uuid_str u) word user_dict) r
                      (Returns_str (uuid_str u)))] (start w) =
     ([Return (map_sum id Returns_str (fst (apply_word E p u r w)))],
      start (snd (apply_word E p u r w)))"
  proof (cases "read_dict E w")
    case (Inl e)
    then show ?thesis by (simp add: apply_word_def alone_Return)
  next
    case rd: (Inr d)
    show ?thesis
    proof (cases "create_word E p")
      case (Inl e)
      with rd show ?thesis by (simp add: apply_word_def alone_Return)
    next
      case (Inr word)
      obtain res w' where ud:
        "update_dict E r (write_to_json E (dict_set (uuid_str u) word d) w) = (res, w')"
        by (cases "update_dict E r (write_to_json E (dict_set (uuid_str u) word d) w)")
      from save_and_update_alone [of "start w" E "dict_set (uuid_str u) word d" r
             "Returns_str (uuid_str u)"]
      show ?thesis
        by (cases res) (simp_all add: rd Inr apply_word_def Let_def ud)
    qed
  qed
  then show ?thesis
    by (simp add: Let_def) (rule read_dict_locked_alone, simp_all)
qed

lemma rewrite_word_alone:
  "\<exists>n. exec E (replicate n 0) [program E (Rewrite_word k p r)] (start w) =
     ([Return (map_sum id (\<lambda>_. Returns_None) (fst (rewrite_word E k p r w)))],
      start (snd (rewrite_word E k p r w)))"
proof -
  have "\<exists>n. exec E (replicate n 0)
          [case read_dict E w of
             Inl e \<Rightarrow> Return (Inl e)
           | Inr user_dict \<Rightarrow>
               if \<not> dict_contains k user_dict then Return (Inl UserDictInputError)
               else (case create_word E p of
                       Inl e \<Rightarrow> Return (Inl e)
                     | Inr word \<Rightarrow>
                         save_and_update E (dict_set k word user_dict) r Returns_None)]
          (start w) =
     ([Return (map_sum id (\<lambda>_. Returns_None) (fst (rewrite_word E k p r w)))],
      start (snd (rewrite_word E k p r w)))"
  proof (cases "read_dict E w")
    case (Inl e)
    then show ?thesis by (simp add: rewrite_word_def alone_Return)
  next
    case rd: (Inr d)
    show ?thesis
    proof (cases "dict_contains k d")
      case False
      with rd show ?thesis by (simp add: rewrite_word_def alone_Return)
    next
      case True
      show ?thesis
      proof (cases "create_word E p")
        case (Inl e)
        with rd True show ?thesis by (simp add: rewrite_word_def alone_Return)
      next
        case (Inr word)
        obtain res w' where ud:
          "update_dict E r (write_to_json E (dict_set k word d) w) = (res, w')"
          by (cases "update_dict E r (write_to_json E (dict_set k word d) w)")
        from save_and_update_alone [of "start w" E "dict_set k word d" r Returns_None]
        show ?thesis
          by (cases res) (simp_all add: rd True Inr rewrite_word_def ud)
      qed
    qed
  qed
  then show ?thesis
    by simp (rule read_dict_locked_alone, simp_all)
qed

lemma delete_word_alone:
  "\<exists>n. exec E (replicate n 0) [program E (Delete_word k r)] (start w) =
     ([Return (map_sum id (\<lambda>_. Returns_None) (fst (delete_word E k r w)))],
      start (snd (delete_word E k r w)))"
proof -
  have "\<exists>n. exec E (replicate n 0)
          [case read_dict E w of
             Inl e \<Rightarrow> Return (Inl e)
           | Inr user_dict \<Rightarrow>
               if \<not> dict_contains k user_dict then Return (Inl UserDictInputError)
               else save_and_update E (dict_del k user_dict) r Returns_None]
          (start w) =
     ([Return (map_sum id (\<lambda>_. Returns_None) (fst (delete_word E k r w)))],
      start (snd (delete_word E k r w)))"
  proof (cases "read_dict E w")
    case (Inl e)
    then show ?thesis by (simp add: delete_word_def alone_Return)
  next
    case rd: (Inr d)
    show ?thesis
    proof (cases "dict_contains k d")
      case False
      with rd show ?thesis by (simp add: delete_word_def alone_Return)
    next
      case True
      obtain res w' where ud: "update_dict E r (write_to_json E (dict_del k d) w) = (res, w')"
        by (cases "update_dict E r (write_to_json E (dict_del k d) w)")
      from save_and_update_alone [of "start w" E "dict_del k d" r Returns_None]
      show ?thesis
        by (cases res) (simp_all add: rd True delete_word_def ud)
    qed
  qed
  then show ?thesis
    by simp (rule read_dict_locked_alone, simp_all)
qed

lemma import_user_dict_alone:
  "\<exists>n. exec E (replicate n 0) [program E (Import_user_dict data override r)] (start w) =
     ([Return (map_sum id (\<lambda>_. Returns_None) (fst (import_user_dict E data override r w)))],
      start (snd (import_user_dict E data override r w)))"
proof (cases "validate_import E data")
  case (Inl e)
  then show ?thesis by (simp add: import_user_dict_def alone_Return)
next
  case ok: (Inr x)
  have "\<exists>n. exec E (replicate n 0)
          [case read_dict E w of
             Inl e \<Rightarrow> Return (Inl e)
           | Inr old_dict \<Rightarrow>
               save_and_update E
                 (if override then dict_update old_dict data else dict_update data old_dict)
                 r Returns_None]
          (start w) =
     ([Return (map_sum id (\<lambda>_. Returns_None) (fst (import_user_dict E data override r w)))],
      start (snd (import_user_dict E data override r w)))"
  proof (cases "read_dict E w")
    case (Inl e)
    then show ?thesis by (simp add: import_user_dict_def ok alone_Return)
  next
    case rd: (Inr d)
    let ?new = "if override then dict_update d data else dict_update data d"
    obtain res w' where ud: "update_dict E r (write_to_json E ?new w) = (res, w')"
      by (cases "update_dict E r (write_to_json E ?new w)")
    from save_and_update_alone [of "start w" E ?new r Returns_None]
    show ?thesis
      by (cases res) (simp_all add: rd ok import_user_dict_def Let_def ud)
  qed
  then show ?thesis
    by (simp add: ok) (rule read_dict_locked_alone, simp_all)
qed

lemma update_dict_alone:
  "\<exists>n. exec E (replicate n 0) [program E (Update_dict r)] (start w) =
     ([Return (map_sum id (\<lambda>_. Returns_None) (fst (update_dict E r w)))],
      start (snd (update_dict E r w)))"
proof -
  obtain res w' where ud: "update_dict E r w = (res, w')" by (cases "update_dict E r w")
  show ?thesis
    apply (rule update_dict_locked_solo [where random_string = r and k = "\<lambda>res. case res of
               Inl e \<Rightarrow> Return (Inl e)
             | Inr _ \<Rightarrow> Return (Inr Returns_None)"])
        apply simp
       apply simp
      apply simp
     apply simp
    by (rule solo_done) (cases res; simp add: ud)+
qed

lemma read_dict_alone:
  "\<exists>n. exec E (replicate n 0) [program E Read_dict] (start w) =
     ([Return (map_sum id Returns_dict (read_dict E w))], start w)"
  apply simp
  apply (rule read_dict_locked_alone, simp)
  by (rule solo_done) (simp_all split: sum.splits)

subsection \<open>Whole documents\<close>

lemma whole_document_read_dict: "whole_document w \<Longrightarrow> read_dict E w \<noteq> Inl JSONDecodeError"
proof -
  assume w: "whole_document w"
  have "read_loop E sd acc \<noteq> Inl JSONDecodeError" for sd acc
    by (induction E sd acc rule: read_loop.induct)
       (auto simp: UUID_def Let_def split: sum.splits if_splits option.splits)
  with w show ?thesis
    by (auto simp: read_dict_def whole_document_def split: option.splits stored.splits)
qed

lemma write_bytes_states_ends:
  "hd (write_bytes_states data w) = w"
  "last (write_bytes_states data w) = write_bytes data w"
  "write_bytes_states data w ! Suc 0 = open_wb w"
  by (simp_all add: write_bytes_states_def write_bytes_def)

inductive_cases la_ReturnE: "locked_access P ph (Return r)"
inductive_cases la_AcquireE: "locked_access P ph (Acquire l c)"
inductive_cases la_ReleaseE: "locked_access P ph (Release l c)"
inductive_cases la_LoadE: "locked_access P ph (Load k)"
inductive_cases la_ActE: "locked_access P ph (Act f k)"

lemma disciplined_step:
  assumes inv: "disciplined P ts s" and i: "i < length ts"
    and st: "step E i (ts ! i) s = (c, s')"
  shows "disciplined P (ts[i := c]) s'"
proof (cases "ts ! i")
  case (Return r)
  with st inv i show ?thesis by (auto simp: list_update_same_conv)
next
  case (Acquire l c0)
  show ?thesis
  proof (cases "locks s l = None")
    case False
    with st Acquire inv i show ?thesis by (auto simp: list_update_same_conv)
  next
    case True
    with st Acquire have c: "c = c0" and s': "s' = s\<lparr>locks := (locks s)(l \<mapsto> i)\<rparr>" by auto
    from inv i have "locked_access (P i) (phase_of s i) (ts ! i)" by (simp add: disciplined_def)
    then have g: "locked_access (P i) (phase_of s i) (Acquire l c0)" by (simp add: Acquire)
    show ?thesis
    proof (cases l)
      case mutex_user_dict
      from True mutex_user_dict have free: "locks s mutex_user_dict = None" by simp
      with inv have whole: "whole_document (files s)" by (auto simp: disciplined_def)
      from free have ph: "\<And>j. phase_of s j = Outside" by (simp add: phase_of_def)
      from g ph mutex_user_dict have g': "locked_access (P i) Holding c0" by (auto elim: la_AcquireE)
      have mine: "phase_of s' i = Holding"
        using whole by (simp add: phase_of_def s' mutex_user_dict)
      have others: "\<And>j. j \<noteq> i \<Longrightarrow> phase_of s' j = Outside"
        by (simp add: phase_of_def s' mutex_user_dict)
      have "\<forall>j < length (ts[i := c]). locked_access (P j) (phase_of s' j) (ts[i := c] ! j)"
      proof (intro allI impI)
        fix j assume j: "j < length (ts[i := c])"
        show "locked_access (P j) (phase_of s' j) (ts[i := c] ! j)"
        proof (cases "j = i")
          case True
          with g' mine i show ?thesis by (simp add: c)
        next
          case False
          with inv j others [of j] ph [of j] show ?thesis by (auto simp: disciplined_def)
        qed
      qed
      moreover from whole have "whole_document (files s')" by (simp add: s')
      ultimately show ?thesis by (simp add: disciplined_def)
    next
      case mutex_openjtalk_dict
      have ph: "\<And>j. phase_of s' j = phase_of s j"
        by (simp add: phase_of_def s' mutex_openjtalk_dict)
      from g mutex_openjtalk_dict have "locked_access (P i) (phase_of s i) c0"
        by (auto elim: la_AcquireE)
      moreover have "files s' = files s" "locks s' mutex_user_dict = locks s mutex_user_dict"
        by (simp_all add: s' mutex_openjtalk_dict)
      ultimately show ?thesis
        using inv i by (auto simp: disciplined_def ph c nth_list_update)
    qed
  qed
next
  case (Release l c0)
  with st have c: "c = c0" and s': "s' = s\<lparr>locks := (locks s)(l := None)\<rparr>" by auto
  from inv i have "locked_access (P i) (phase_of s i) (ts ! i)" by (simp add: disciplined_def)
  then have g: "locked_access (P i) (phase_of s i) (Release l c0)" by (simp add: Release)
  show ?thesis
  proof (cases l)
    case mutex_user_dict
    from g mutex_user_dict have ph: "phase_of s i = Holding" and g': "locked_access (P i) Outside c0"
      by (auto elim: la_ReleaseE)
    from ph have held: "locks s mutex_user_dict = Some i" and whole: "whole_document (files s)"
      by (auto simp: phase_of_def split: if_splits)
    from held have others: "\<And>j. j \<noteq> i \<Longrightarrow> phase_of s j = Outside" by (simp add: phase_of_def)
    have after: "\<And>j. phase_of s' j = Outside" by (simp add: phase_of_def s' mutex_user_dict)
    have fs: "files s' = files s" by (simp add: s')
    from inv i g' others whole show ?thesis
      by (auto simp: disciplined_def after c nth_list_update fs)
  next
    case mutex_openjtalk_dict
    have ph: "\<And>j. phase_of s' j = phase_of s j"
      by (simp add: phase_of_def s' mutex_openjtalk_dict)
    from g mutex_openjtalk_dict have "locked_access (P i) (phase_of s i) c0"
      by (auto elim: la_ReleaseE)
    moreover have "files s' = files s" "locks s' mutex_user_dict = locks s mutex_user_dict"
      by (simp_all add: s' mutex_openjtalk_dict)
    ultimately show ?thesis
      using inv i by (auto simp: disciplined_def ph c nth_list_update)
  qed
next
  case (Load k)
  with st have c: "c = k (read_dict E (files s))" and s': "s' = s" by auto
  from inv i have "locked_access (P i) (phase_of s i) (ts ! i)" by (simp add: disciplined_def)
  then have g: "locked_access (P i) (phase_of s i) (Load k)" by (simp add: Load)
  then have ph: "phase_of s i = Holding"
    and g': "\<And>res. res \<noteq> Inl JSONDecodeError \<Longrightarrow> locked_access (P i) Holding (k res)"
    by (auto elim: la_LoadE)
  from ph have "whole_document (files s)" by (auto simp: phase_of_def split: if_splits)
  then have "read_dict E (files s) \<noteq> Inl JSONDecodeError" by (rule whole_document_read_dict)
  from g' [OF this] ph inv i show ?thesis
    by (auto simp: disciplined_def c s' nth_list_update)
next
  case (Act f k)
  with st have c: "c = k (files s)" and s': "s' = s\<lparr>files := f (files s)\<rparr>" by auto
  from inv i have "locked_access (P i) (phase_of s i) (ts ! i)" by (simp add: disciplined_def)
  then have g: "locked_access (P i) (phase_of s i) (Act f k)" by (simp add: Act)
  show ?thesis
  proof (cases "phase_of s i")
    case Outside
    with g have same: "user_dict_file (f (files s)) = user_dict_file (files s)"
      and g': "locked_access (P i) Outside (k (files s))"
      by (auto elim: la_ActE)
    from same have ph: "\<And>j. phase_of s' j = phase_of s j"
      by (simp add: phase_of_def s' whole_document_def)
    from same have wh: "whole_document (files s') = whole_document (files s)"
      by (simp add: s' whole_document_def)
    have "locks s' = locks s" by (simp add: s')
    with inv i g' Outside show ?thesis
      by (auto simp: disciplined_def ph wh c nth_list_update)
  next
    case Holding
    with g have broken: "\<not> whole_document (f (files s))" and g': "locked_access (P i) Writing (k (files s))"
      by (auto elim: la_ActE)
    from Holding have held: "locks s mutex_user_dict = Some i"
      by (auto simp: phase_of_def split: if_splits)
    from held have others: "\<And>j. j \<noteq> i \<Longrightarrow> phase_of s' j = Outside \<and> phase_of s j = Outside"
      by (simp add: phase_of_def s')
    from held broken have mine: "phase_of s' i = Writing" by (simp add: phase_of_def s')
    have "\<forall>j < length (ts[i := c]). locked_access (P j) (phase_of s' j) (ts[i := c] ! j)"
    proof (intro allI impI)
      fix j assume j: "j < length (ts[i := c])"
      show "locked_access (P j) (phase_of s' j) (ts[i := c] ! j)"
      proof (cases "j = i")
        case True
        with g' mine i show ?thesis by (simp add: c)
      next
        case False
        with inv j others [of j] show ?thesis by (auto simp: disciplined_def)
      qed
    qed
    moreover from held i have "\<exists>j < length (ts[i := c]). locks s' mutex_user_dict = Some j"
      by (auto simp: s')
    ultimately show ?thesis by (simp add: disciplined_def)
  next
    case Writing
    with g have fixed: "whole_document (f (files s))" and g': "locked_access (P i) Holding (k (files s))"
      by (auto elim: la_ActE)
    from Writing have held: "locks s mutex_user_dict = Some i"
      by (auto simp: phase_of_def split: if_splits)
    from held have others: "\<And>j. j \<noteq> i \<Longrightarrow> phase_of s' j = Outside \<and> phase_of s j = Outside"
      by (simp add: phase_of_def s')
    from held fixed have mine: "phase_of s' i = Holding" by (simp add: phase_of_def s')
    have "\<forall>j < length (ts[i := c]). locked_access (P j) (phase_of s' j) (ts[i := c] ! j)"
    proof (intro allI impI)
      fix j assume j: "j < length (ts[i := c])"
      show "locked_access (P j) (phase_of s' j) (ts[i := c] ! j)"
      proof (cases "j = i")
        case True
        with g' mine i show ?thesis by (simp add: c)
      next
        case False
        with inv j others [of j] show ?thesis by (auto simp: disciplined_def)
      qed
    qed
    moreover from fixed have "whole_document (files s')" by (simp add: s')
    ultimately show ?thesis by (simp add: disciplined_def)
  qed
qed

lemma disciplined_exec:
  "disciplined P ts s \<Longrightarrow> exec E schedule ts s = (ts', s') \<Longrightarrow>
   disciplined P ts' s' \<and> length ts' = length ts"
proof (induction schedule arbitrary: ts s)
  case Nil
  then show ?case by simp
next
  case (Cons i schedule)
  show ?case
  proof (cases "i < length ts")
    case False
    with Cons show ?thesis by simp
  next
    case True
    obtain c s1 where st: "step E i (ts ! i) s = (c, s1)" by (cases "step E i (ts ! i) s")
    from disciplined_step [OF Cons.prems(1) True st]
    have d: "disciplined P (ts[i := c]) s1" .
    from Cons.prems(2) True st have "exec E schedule (ts[i := c]) s1 = (ts', s')" by simp
    from Cons.IH [OF d this] show ?thesis by simp
  qed
qed

lemma locked_access_read_dict:
  "(\<And>res. res \<noteq> Inl JSONDecodeError \<Longrightarrow> locked_access P Outside (k res)) \<Longrightarrow> locked_access P Outside (read_dict_locked k)"
  unfolding read_dict_locked_def
  by (intro la_Acquire la_Load la_Release)

lemma whole_document_write_data: "whole_document (write_data (JsonDoc d) w)"
  by (simp add: whole_document_def write_data_def)

lemma not_whole_document_open_wb: "\<not> whole_document (open_wb w)"
  by (simp add: whole_document_def open_wb_def)

lemma locked_access_write_to_json:
  "locked_access P Outside k \<Longrightarrow> locked_access P Outside (write_to_json_locked E d k)"
  unfolding write_to_json_locked_def
  by (intro la_Acquire la_Act_open la_Act_write la_Release
        whole_document_write_data not_whole_document_open_wb)

lemma update_dict_export_frame:
  "user_dict_file (snd (update_dict_export E name dd ud w)) = user_dict_file w"
  "default_dict_file (snd (update_dict_export E name dd ud w)) = default_dict_file w"
  by (simp_all add: update_dict_export_def Let_def split: compile_result.splits option.splits)

lemma locked_access_update_dict_finally:
  "(\<And>res. locked_access P Outside (k res)) \<Longrightarrow> locked_access P Outside (update_dict_finally_locked E name k res)"
  unfolding update_dict_finally_locked_def
  by (intro la_Act la_Release_other) (simp_all add: update_dict_finally_frame)

lemma locked_access_update_dict:
  assumes "\<And>res. locked_access P Outside (k res)"
  shows "locked_access P Outside (update_dict_locked E r k)"
  unfolding update_dict_locked_def Let_def
proof (intro la_Acquire_other la_Act)
  fix w
  show "user_dict_file (case default_dict_file w of
            None \<Rightarrow> warn ''Cannot find default dictionary.'' w | Some default_dict \<Rightarrow> w)
        = user_dict_file w"
    by (simp add: warn_def split: option.splits)
  show "locked_access P Outside (case default_dict_file w of
            None \<Rightarrow> update_dict_finally_locked E (uuid_str r) k (Inr ())
          | Some default_dict \<Rightarrow>
              read_dict_locked (\<lambda>res. case res of
                  Inl e \<Rightarrow> update_dict_finally_locked E (uuid_str r) k (Inl e)
                | Inr user_dict \<Rightarrow>
                    Act (\<lambda>w. snd (update_dict_export E (uuid_str r) default_dict user_dict w))
                        (\<lambda>w. update_dict_finally_locked E (uuid_str r) k
                           (fst (update_dict_export E (uuid_str r) default_dict user_dict w)))))"
  proof (cases "default_dict_file w")
    case None
    then show ?thesis by (simp add: locked_access_update_dict_finally assms)
  next
    case (Some dd)
    have "locked_access P Outside (case res of
              Inl e \<Rightarrow> update_dict_finally_locked E (uuid_str r) k (Inl e)
            | Inr user_dict \<Rightarrow>
                Act (\<lambda>w. snd (update_dict_export E (uuid_str r) dd user_dict w))
                    (\<lambda>w. update_dict_finally_locked E (uuid_str r) k
                       (fst (update_dict_export E (uuid_str r) dd user_dict w))))" for res
      by (cases res)
         (auto intro!: la_Act locked_access_update_dict_finally assms
               simp: update_dict_export_frame)
    then show ?thesis by (simp add: Some locked_access_read_dict)
  qed
qed

lemma locked_access_save_and_update: "locked_access (allowed c) Outside (save_and_update E d r result)"
  if "c \<noteq> Read_dict"
  unfolding save_and_update_def
  by (intro locked_access_write_to_json locked_access_update_dict)
     (auto intro!: la_Return simp: allowed_def that split: sum.splits)

lemma locked_access_program: "locked_access (allowed c) Outside (program E c)"
proof (cases c)
  case (Apply_word p u r)
  show ?thesis
    unfolding Apply_word program.simps
    by (rule locked_access_read_dict)
       (auto intro!: la_Return locked_access_save_and_update simp: allowed_def Let_def split: sum.splits)
next
  case (Rewrite_word k p r)
  show ?thesis
    unfolding Rewrite_word program.simps
    by (rule locked_access_read_dict)
       (auto intro!: la_Return locked_access_save_and_update simp: allowed_def split: sum.splits)
next
  case (Delete_word k r)
  show ?thesis
    unfolding Delete_word program.simps
    by (rule locked_access_read_dict)
       (auto intro!: la_Return locked_access_save_and_update simp: allowed_def split: sum.splits)
next
  case (Import_user_dict d ov r)
  show ?thesis
  proof (cases "validate_import E d")
    case (Inl e)
    then show ?thesis by (auto intro!: la_Return simp: Import_user_dict allowed_def)
  next
    case (Inr x)
    have "locked_access (allowed c) Outside (read_dict_locked (\<lambda>res. case res of
              Inl e \<Rightarrow> Return (Inl e)
            | Inr old_dict \<Rightarrow>
                save_and_update E
                  (if ov then dict_update old_dict d else dict_update d old_dict)
                  r Returns_None))"
      by (rule locked_access_read_dict)
         (auto intro!: la_Return locked_access_save_and_update simp: allowed_def Import_user_dict
               split: sum.splits)
    then show ?thesis by (simp add: Import_user_dict Inr)
  qed
next
  case (Update_dict r)
  show ?thesis
    unfolding Update_dict program.simps
    by (rule locked_access_update_dict)
       (auto intro!: la_Return simp: allowed_def split: sum.splits)
next
  case Read_dict
  show ?thesis
    unfolding Read_dict program.simps
    by (rule locked_access_read_dict)
       (auto intro!: la_Return simp: allowed_def split: sum.splits)
qed

lemma disciplined_start:
  "whole_document w \<Longrightarrow>
   disciplined (\<lambda>i. allowed (calls ! i)) (map (program E) calls) (start w)"
  by (simp add: disciplined_def start_def phase_of_def locked_access_program)

lemma locked_access_Load: "locked_access P ph (Load k) \<Longrightarrow> ph = Holding"
  by (auto elim: la_LoadE)

lemma locked_access_Return: "locked_access P ph (Return r) \<Longrightarrow> P r"
  by (auto elim: la_ReturnE)

lemma locked_access_Writing:
  "locked_access P Writing c \<Longrightarrow> \<exists>f k. c = Act f k \<and> (\<forall>w. whole_document (f w))"
  by (auto elim: locked_access.cases)

lemma apply_word_killed:
  "files (snd (concurrently example_env [0, 0, 0, 0, 0]
      [Apply_word (''a'', ''b'', 5) 12 3] two_word_world)) = open_wb two_word_world"
  by (simp add: concurrently_def start_def read_dict_locked_def save_and_update_def
        write_to_json_locked_def read_dict_two_word_world example_env_fields Let_def)

lemma read_dict_restarted:
  "fst (concurrently example_env [0, 0, 0] [Read_dict] (open_wb two_word_world))
     = [Return (Inl JSONDecodeError)]"
  by (simp add: concurrently_def start_def read_dict_locked_def)
     (simp add: read_dict_def open_wb_def)

text \<open>
  C2, as claimed, fails: \<^verbatim>\<open>_write_to_json\<close> overwrites the file in place. Between the
  opening of the file, which cuts it to length zero, and the writing of the data, the
  file holds neither the old document nor the new one, and a reader of this state gets a
  decoding error. So it is after a crash: a process that is killed when \<^verbatim>\<open>apply_word\<close>
  has opened the file leaves it cut, and \<^verbatim>\<open>read_dict\<close> in the process started next on
  these files fails.
\<close>

theorem write_in_place_counterexample:
  "write_to_json example_env [(uuid_str 10, example_word ''x'' ''y'' 5)] two_word_world
     = last (write_bytes_states
         (JsonDoc (save_loop example_env [(uuid_str 10, example_word ''x'' ''y'' 5)] []))
         two_word_world)
   \<and> user_dict_file (write_bytes_states
         (JsonDoc (save_loop example_env [(uuid_str 10, example_word ''x'' ''y'' 5)] []))
         two_word_world ! 1) = Some (Malformed [])
   \<and> user_dict_file (write_bytes_states
         (JsonDoc (save_loop example_env [(uuid_str 10, example_word ''x'' ''y'' 5)] []))
         two_word_world ! 1) \<noteq> user_dict_file two_word_world
   \<and> user_dict_file (write_bytes_states
         (JsonDoc (save_loop example_env [(uuid_str 10, example_word ''x'' ''y'' 5)] []))
         two_word_world ! 1)
       \<noteq> user_dict_file
           (write_to_json example_env [(uuid_str 10, example_word ''x'' ''y'' 5)] two_word_world)
   \<and> read_dict example_env (write_bytes_states
         (JsonDoc (save_loop example_env [(uuid_str 10, example_word ''x'' ''y'' 5)] []))
         two_word_world ! 1) = Inl JSONDecodeError
   \<and> files (snd (concurrently example_env [0, 0, 0, 0, 0]
         [Apply_word (''a'', ''b'', 5) 12 3] two_word_world)) = open_wb two_word_world
   \<and> user_dict_file (open_wb two_word_world) = Some (Malformed [])
   \<and> fst (concurrently example_env [0, 0, 0] [Read_dict] (open_wb two_word_world))
       = [Return (Inl JSONDecodeError)]"
  by (simp add: write_bytes_states_ends write_to_json_def apply_word_killed read_dict_restarted)
     (simp add: open_wb_def read_dict_def two_word_world_def write_bytes_def write_data_def)

lemma read_dict_after_apply:
  "read_dict example_env
     (write_data
        (JsonDoc
           [(uuid_str 10, convert_to_save_format example_env (example_word ''c'' ''d'' 5)),
            (uuid_str 11, convert_to_save_format example_env (example_word ''e'' ''f'' 6)),
            (uuid_str 12, convert_to_save_format example_env (example_word ''a'' ''b'' 5))])
        (open_wb w))
   = Inr [(uuid_str 10, example_word ''c'' ''d'' 5), (uuid_str 11, example_word ''e'' ''f'' 6),
          (uuid_str 12, example_word ''a'' ''b'' 5)]"
proof -
  have "read_dict example_env (write_to_json example_env
          [(uuid_str 10, example_word ''c'' ''d'' 5), (uuid_str 11, example_word ''e'' ''f'' 6),
           (uuid_str 12, example_word ''a'' ''b'' 5)] w)
   = Inr [(uuid_str 10, example_word ''c'' ''d'' 5), (uuid_str 11, example_word ''e'' ''f'' 6),
          (uuid_str 12, example_word ''a'' ''b'' 5)]"
    by (rule read_after_write_inverse)
       (auto simp: codec_inverse_on_def example_env_fields example_word_def uuid_str_example_neq)
  then show ?thesis by (simp add: write_to_json_def write_bytes_def uuid_str_example_neq)
qed

lemma whole_document_two_word_world: "whole_document two_word_world"
  by (simp add: whole_document_def two_word_world_def)

lemma apply_word_until_open:
  "concurrently example_env [0, 0, 0, 0, 0, Suc 0]
     [Apply_word (''a'', ''b'', 5) 12 3, Read_dict] two_word_world
   = ([Act (write_data (JsonDoc (save_loop example_env
              [(uuid_str 10, example_word ''c'' ''d'' 5), (uuid_str 11, example_word ''e'' ''f'' 6),
               (uuid_str 12, example_word ''a'' ''b'' 5)] [])))
         (\<lambda>w. Release mutex_user_dict
            (update_dict_locked example_env 3 (\<lambda>res. case res of
                Inl e \<Rightarrow> Return (Inl e)
              | Inr _ \<Rightarrow> Return (Inr (Returns_str (uuid_str 12)))))),
       program example_env Read_dict],
      \<lparr> files = open_wb two_word_world,
        locks = (\<lambda>l. None)(mutex_user_dict \<mapsto> 0) \<rparr>)"
  by (simp add: concurrently_def start_def read_dict_locked_def save_and_update_def
        write_to_json_locked_def read_dict_two_word_world example_env_fields Let_def
        uuid_str_example_neq)

text \<open>
  The lock is what keeps a reader from the cut file: a thread that read the file without
  \<^verbatim>\<open>mutex_user_dict\<close>, which no method of the manager does, would meet it.
\<close>

lemma reading_without_the_lock:
  "fst (exec example_env [0, 0, 0, 0, 0, Suc 0]
         [program example_env (Apply_word (''a'', ''b'', 5) 12 3),
          Load (\<lambda>res. Return (map_sum id Returns_dict res))]
         (start two_word_world)) ! Suc 0
     = Return (Inl JSONDecodeError)"
  by (simp add: start_def read_dict_locked_def save_and_update_def write_to_json_locked_def
        read_dict_two_word_world example_env_fields Let_def)
     (simp add: read_dict_def open_wb_def)

text \<open>
  C2, amended. Among the callers of one process, whatever they call (the four
  operations, \<^verbatim>\<open>update_dict\<close>, \<^verbatim>\<open>read_dict\<close>) and however they are scheduled, no reading
  of the user dictionary file meets a partly written document: when a thread is about to
  run the body of \<^verbatim>\<open>read_dict\<close> it holds \<^verbatim>\<open>mutex_user_dict\<close> and the file is absent or
  whole, and no call of \<^verbatim>\<open>read_dict\<close> fails on the decoding of the file. The file is
  cut only while a thread holds \<^verbatim>\<open>mutex_user_dict\<close> inside \<^verbatim>\<open>_write_to_json\<close>, with
  the writing of a whole document as its next step. This is what the lock gives, for a
  process that started with the file absent or whole and in which no writing is broken
  off; nothing is promised to a reader after a crash, as shown above.
\<close>

theorem locked_readers_see_whole_documents:
  assumes "whole_document w"
  shows "(\<forall>i < length calls.
            (\<forall>k. fst (concurrently E schedule calls w) ! i = Load k
               \<longrightarrow> locks (snd (concurrently E schedule calls w)) mutex_user_dict = Some i
                 \<and> whole_document (files (snd (concurrently E schedule calls w))))
          \<and> (calls ! i = Read_dict
               \<longrightarrow> fst (concurrently E schedule calls w) ! i \<noteq> Return (Inl JSONDecodeError)))
       \<and> (whole_document (files (snd (concurrently E schedule calls w)))
          \<or> (\<exists>i < length calls.
                locks (snd (concurrently E schedule calls w)) mutex_user_dict = Some i
              \<and> (\<exists>f k. fst (concurrently E schedule calls w) ! i = Act f k
                        \<and> (\<forall>w'. whole_document (f w')))))"
proof -
  obtain ts s where ex: "exec E schedule (map (program E) calls) (start w) = (ts, s)"
    by (cases "exec E schedule (map (program E) calls) (start w)")
  from disciplined_exec [OF disciplined_start [OF assms] ex]
  have d: "disciplined (\<lambda>i. allowed (calls ! i)) ts s" and len: "length ts = length calls"
    by simp_all
  have g: "locked_access (allowed (calls ! i)) (phase_of s i) (ts ! i)" if "i < length calls" for i
    using d len that by (simp add: disciplined_def)
  have 1: "locks s mutex_user_dict = Some i \<and> whole_document (files s)"
    if "i < length calls" "ts ! i = Load k" for i k
    using g [OF that(1)] locked_access_Load [of "allowed (calls ! i)" "phase_of s i" k] that(2)
    by (auto simp: phase_of_def split: if_splits)
  have 2: "ts ! i \<noteq> Return (Inl JSONDecodeError)"
    if "i < length calls" "calls ! i = Read_dict" for i
    using g [OF that(1)]
      locked_access_Return [of "allowed (calls ! i)" "phase_of s i" "Inl JSONDecodeError"] that(2)
    by (auto simp: allowed_def)
  have 3: "\<exists>i < length calls. locks s mutex_user_dict = Some i
             \<and> (\<exists>f k. ts ! i = Act f k \<and> (\<forall>w'. whole_document (f w')))"
    if "\<not> whole_document (files s)"
  proof -
    from d that len obtain i where i: "i < length calls" and h: "locks s mutex_user_dict = Some i"
      by (auto simp: disciplined_def)
    from h that have "phase_of s i = Writing" by (simp add: phase_of_def)
    with g [OF i] have "locked_access (allowed (calls ! i)) Writing (ts ! i)" by simp
    then have "\<exists>f k. ts ! i = Act f k \<and> (\<forall>w'. whole_document (f w'))"
      by (rule locked_access_Writing)
    with i h show ?thesis by blast
  qed
  from 1 2 3 show ?thesis
    unfolding concurrently_def ex fst_conv snd_conv by blast
qed

theorem locked_readers_see_whole_documents_witness:
  "whole_document two_word_world
   \<and> \<not> whole_document (files (snd (concurrently example_env [0, 0, 0, 0, 0, 1]
          [Apply_word (''a'', ''b'', 5) 12 3, Read_dict] two_word_world)))
   \<and> locks (snd (concurrently example_env [0, 0, 0, 0, 0, 1]
          [Apply_word (''a'', ''b'', 5) 12 3, Read_dict] two_word_world)) mutex_user_dict = Some 0
   \<and> fst (concurrently example_env [0, 0, 0, 0, 0, 1]
          [Apply_word (''a'', ''b'', 5) 12 3, Read_dict] two_word_world) ! 1
       = program example_env Read_dict
   \<and> fst (concurrently example_env [0, 0, 0, 0, 0, 1, 0, 0, 1, 1, 1]
          [Apply_word (''a'', ''b'', 5) 12 3, Read_dict] two_word_world) ! 1
       \<noteq> Return (Inl JSONDecodeError)
   \<and> fst (concurrently example_env [0, 0, 0, 0, 0, 1, 0, 0, 1, 1, 1]
          [Apply_word (''a'', ''b'', 5) 12 3, Read_dict] two_word_world) ! 1
       = Return (Inr (Returns_dict
           [(uuid_str 10, example_word ''c'' ''d'' 5), (uuid_str 11, example_word ''e'' ''f'' 6),
            (uuid_str 12, example_word ''a'' ''b'' 5)]))"
proof -
  let ?calls = "[Apply_word (''a'', ''b'', 5) 12 3, Read_dict]"
  from locked_readers_see_whole_documents [OF whole_document_two_word_world,
         of ?calls example_env "[0, 0, 0, 0, 0, 1, 0, 0, 1, 1, 1]", THEN conjunct1,
         rule_format, of 1, THEN conjunct2]
  have 1: "fst (concurrently example_env [0, 0, 0, 0, 0, 1, 0, 0, 1, 1, 1] ?calls two_word_world) ! 1
             \<noteq> Return (Inl JSONDecodeError)"
    by simp
  have 2: "fst (concurrently example_env [0, 0, 0, 0, 0, 1, 0, 0, 1, 1, 1] ?calls two_word_world) ! 1
       = Return (Inr (Returns_dict
           [(uuid_str 10, example_word ''c'' ''d'' 5), (uuid_str 11, example_word ''e'' ''f'' 6),
            (uuid_str 12, example_word ''a'' ''b'' 5)]))"
    by (simp add: concurrently_def start_def read_dict_locked_def save_and_update_def
          write_to_json_locked_def read_dict_two_word_world example_env_fields Let_def
          uuid_str_example_neq read_dict_after_apply)
  show ?thesis
    using 1 2 by (simp add: apply_word_until_open whole_document_two_word_world
                    not_whole_document_open_wb)
qed

end
